theory Spec2Isabelle
  imports Main
begin

section \<open>Text and the Python string operations the pipeline uses\<close>

text \<open>
  A Python \<open>str\<close> is a sequence of code points. It is modelled as a \<open>string\<close>, each
  \<open>char\<close> standing for one code point (so \<open>length\<close> is Python's \<open>len\<close>); the character
  classes below list the members of Python's classes among the code points below 256.
  The chunker does not look at characters at all and is stated for lists of anything.
\<close>

subsection \<open>The chunker (scrape.py, split\_dom\_content)\<close>

datatype pyexn =
    RequestException string
  | HTTPError nat
  | OtherException string
  | ValueError
  | KeyError
  | IndexError
  | TypeError
  | AdvancedScraperError string

text \<open>
  \<open>range(start, stop, step)\<close> for a positive step, as the list of the values it yields.
\<close>

function range_step :: "nat \<Rightarrow> nat \<Rightarrow> nat \<Rightarrow> nat list" where
  "range_step i n L = (if L = 0 \<or> n \<le> i then [] else i # range_step (i + L) n L)"
  by pat_completeness auto
termination
  by (relation "measure (\<lambda>(i, n, L). n - i)") auto

declare range_step.simps [simp del]

text \<open>
  \<open>[dom_content[i:i + max_length] for i in range(0, len(dom_content), max_length)]\<close>.
  \<open>range\<close> raises ValueError for a zero step and is empty for a negative one (its start
  0 is never above its stop); the slice \<open>s[i:i + L]\<close> is \<open>take L (drop i s)\<close>.
\<close>

definition split_dom_content :: "'a list \<Rightarrow> int \<Rightarrow> pyexn + 'a list list" where
  "split_dom_content dom_content max_length =
     (if max_length = 0 then Inl ValueError
      else if max_length < 0 then Inr []
      else Inr (map (\<lambda>i. take (nat max_length) (drop i dom_content))
                    (range_step 0 (length dom_content) (nat max_length))))"

subsection \<open>Python string operations\<close>

definition NL :: char where
  "NL = CHR 0x0A"

definition CR :: char where
  "CR = CHR 0x0D"

text \<open>The characters \<open>str.isspace\<close> accepts (removed by \<open>strip()\<close>, separating for \<open>split()\<close>).\<close>

definition whitespace :: "char list" where
  "whitespace = [CHR 0x09, CHR 0x0A, CHR 0x0B, CHR 0x0C, CHR 0x0D,
                 CHR 0x1C, CHR 0x1D, CHR 0x1E, CHR 0x1F, CHR 0x20, CHR 0x85, CHR 0xA0]"

definition is_space :: "char \<Rightarrow> bool" where
  "is_space c = (c \<in> set whitespace)"

text \<open>The line boundaries of \<open>str.splitlines\<close>; CR followed by LF counts as one boundary.\<close>

definition linebreaks :: "char list" where
  "linebreaks = [CHR 0x0A, CHR 0x0B, CHR 0x0C, CHR 0x0D, CHR 0x1C, CHR 0x1D, CHR 0x1E, CHR 0x85]"

definition is_linebreak :: "char \<Rightarrow> bool" where
  "is_linebreak c = (c \<in> set linebreaks)"

definition strip :: "string \<Rightarrow> string" where
  "strip s = rev (dropWhile is_space (rev (dropWhile is_space s)))"

text \<open>
  \<open>s.splitlines()\<close>: \<open>cur\<close> is the line read so far. A line boundary closes the current
  line, also an empty one; text after the last boundary is a line only if it is non-empty.
\<close>

fun splitlines_from :: "string \<Rightarrow> string \<Rightarrow> string list" where
  "splitlines_from cur [] = (if cur = [] then [] else [cur])"
| "splitlines_from cur [c] =
     (if is_linebreak c then [cur] else [cur @ [c]])"
| "splitlines_from cur (c # d # cs) =
     (if c = CR \<and> d = NL then cur # splitlines_from [] cs
      else if is_linebreak c then cur # splitlines_from [] (d # cs)
      else splitlines_from (cur @ [c]) (d # cs))"

definition splitlines :: "string \<Rightarrow> string list" where
  "splitlines s = splitlines_from [] s"

text \<open>\<open>s.split()\<close> without arguments: the maximal runs of non-whitespace characters.\<close>

fun split_from :: "string \<Rightarrow> string \<Rightarrow> string list" where
  "split_from cur [] = (if cur = [] then [] else [cur])"
| "split_from cur (c # cs) =
     (if is_space c then (if cur = [] then split_from [] cs else cur # split_from [] cs)
      else split_from (cur @ [c]) cs)"

definition split_ws :: "string \<Rightarrow> string list" where
  "split_ws s = split_from [] s"

text \<open>\<open>sep.join(items)\<close> for items that are all strings.\<close>

fun join :: "string \<Rightarrow> string list \<Rightarrow> string" where
  "join sep [] = []"
| "join sep [x] = x"
| "join sep (x # y # ys) = x @ sep @ join sep (y # ys)"

text \<open>\<open>s.startswith(p)\<close> and the substring test \<open>needle in s\<close>.\<close>

fun startswith :: "string \<Rightarrow> string \<Rightarrow> bool" where
  "startswith s [] = True"
| "startswith [] (p # ps) = False"
| "startswith (c # cs) (p # ps) = (c = p \<and> startswith cs ps)"

fun contains :: "string \<Rightarrow> string \<Rightarrow> bool" where
  "contains needle [] = (needle = [])"
| "contains needle (c # cs) = (startswith (c # cs) needle \<or> contains needle cs)"

text \<open>\<open>s.lower()\<close>: the upper-case letters below 256 are A-Z and the Latin-1 capitals.\<close>

definition upper_letters :: "char list" where
  "upper_letters = ''ABCDEFGHIJKLMNOPQRSTUVWXYZ'' @
     [CHR 0xC0, CHR 0xC1, CHR 0xC2, CHR 0xC3, CHR 0xC4, CHR 0xC5, CHR 0xC6, CHR 0xC7,
      CHR 0xC8, CHR 0xC9, CHR 0xCA, CHR 0xCB, CHR 0xCC, CHR 0xCD, CHR 0xCE, CHR 0xCF,
      CHR 0xD0, CHR 0xD1, CHR 0xD2, CHR 0xD3, CHR 0xD4, CHR 0xD5, CHR 0xD6, CHR 0xD8,
      CHR 0xD9, CHR 0xDA, CHR 0xDB, CHR 0xDC, CHR 0xDD, CHR 0xDE]"

definition lower_letters :: "char list" where
  "lower_letters = ''abcdefghijklmnopqrstuvwxyz'' @
     [CHR 0xE0, CHR 0xE1, CHR 0xE2, CHR 0xE3, CHR 0xE4, CHR 0xE5, CHR 0xE6, CHR 0xE7,
      CHR 0xE8, CHR 0xE9, CHR 0xEA, CHR 0xEB, CHR 0xEC, CHR 0xED, CHR 0xEE, CHR 0xEF,
      CHR 0xF0, CHR 0xF1, CHR 0xF2, CHR 0xF3, CHR 0xF4, CHR 0xF5, CHR 0xF6, CHR 0xF8,
      CHR 0xF9, CHR 0xFA, CHR 0xFB, CHR 0xFC, CHR 0xFD, CHR 0xFE]"

definition lower_char :: "char \<Rightarrow> char" where
  "lower_char c = (case map_of (zip upper_letters lower_letters) c of Some l \<Rightarrow> l | None \<Rightarrow> c)"

definition lower :: "string \<Rightarrow> string" where
  "lower s = map lower_char s"

text \<open>\<open>str(n)\<close> for a non-negative integer.\<close>

definition digit_char :: "nat \<Rightarrow> char" where
  "digit_char d = ''0123456789'' ! d"

fun str_nat :: "nat \<Rightarrow> string" where
  "str_nat n = (if n < 10 then [digit_char n] else str_nat (n div 10) @ [digit_char (n mod 10)])"

declare str_nat.simps [simp del]

text \<open>
  The comprehension \<open>[l.strip() for l in text.splitlines() if l.strip()]\<close>, which both the
  normalizer and the tabular reconstructor apply to their text.
\<close>

definition nonblank_lines :: "string \<Rightarrow> string list" where
  "nonblank_lines t = [strip l. l \<leftarrow> splitlines t, strip l \<noteq> []]"


section \<open>Python values, HTTP and the external libraries\<close>

text \<open>
  The values \<open>response.json()\<close> can return: \<open>None\<close>, booleans, numbers, strings, lists
  and dictionaries with string keys (a dictionary is the list of its items, looked up with
  \<open>map_of\<close>). Of a number the code can only observe whether it is zero, so a number is
  an \<open>int\<close>.
\<close>

datatype pyval =
    PNone
  | PBool bool
  | PNum int
  | PStr string
  | PList "pyval list"
  | PDict "(string \<times> pyval) list"

text \<open>Truth value of an object, as \<open>and\<close> and \<open>if\<close> take it.\<close>

fun truthy :: "pyval \<Rightarrow> bool" where
  "truthy PNone = False"
| "truthy (PBool b) = b"
| "truthy (PNum n) = (n \<noteq> 0)"
| "truthy (PStr s) = (s \<noteq> [])"
| "truthy (PList xs) = (xs \<noteq> [])"
| "truthy (PDict kvs) = (kvs \<noteq> [])"

text \<open>
  \<open>key in v\<close> for a string \<open>key\<close>: a key of a dictionary, an element of a list, a substring
  of a string; TypeError for anything else.
\<close>

fun py_in :: "string \<Rightarrow> pyval \<Rightarrow> pyexn + bool" where
  "py_in k (PDict kvs) = Inr (map_of kvs k \<noteq> None)"
| "py_in k (PList xs) = Inr (PStr k \<in> set xs)"
| "py_in k (PStr s) = Inr (contains k s)"
| "py_in k PNone = Inl TypeError"
| "py_in k (PBool b) = Inl TypeError"
| "py_in k (PNum n) = Inl TypeError"

text \<open>The subscripts the code uses: \<open>v["key"]\<close> and \<open>v[0]\<close>.\<close>

datatype subscript = Key string | Index0

fun getitem :: "pyval \<Rightarrow> subscript \<Rightarrow> pyexn + pyval" where
  "getitem (PDict kvs) (Key k) = (case map_of kvs k of None \<Rightarrow> Inl KeyError | Some v \<Rightarrow> Inr v)"
| "getitem (PDict kvs) Index0 = Inl KeyError"
| "getitem (PList xs) Index0 = (case xs of [] \<Rightarrow> Inl IndexError | x # _ \<Rightarrow> Inr x)"
| "getitem (PList xs) (Key k) = Inl TypeError"
| "getitem (PStr s) Index0 = (case s of [] \<Rightarrow> Inl IndexError | c # _ \<Rightarrow> Inr (PStr [c]))"
| "getitem (PStr s) (Key k) = Inl TypeError"
| "getitem PNone sub = Inl TypeError"
| "getitem (PBool b) sub = Inl TypeError"
| "getitem (PNum n) sub = Inl TypeError"

text \<open>A chain of subscripts \<open>v[a][b][c]\<close>, stopping at the first one that raises.\<close>

fun getpath :: "pyval \<Rightarrow> subscript list \<Rightarrow> pyexn + pyval" where
  "getpath v [] = Inr v"
| "getpath v (sub # subs) = (case getitem v sub of Inl e \<Rightarrow> Inl e | Inr w \<Rightarrow> getpath w subs)"

text \<open>
  \<open>sep.join(items)\<close> on a list of arbitrary values: TypeError unless every item is a
  string.
\<close>

fun strings_of :: "pyval list \<Rightarrow> string list option" where
  "strings_of [] = Some []"
| "strings_of (PStr s # vs) = (case strings_of vs of None \<Rightarrow> None | Some ss \<Rightarrow> Some (s # ss))"
| "strings_of (v # vs) = None"

definition py_join :: "string \<Rightarrow> pyval list \<Rightarrow> pyexn + string" where
  "py_join sep items = (case strings_of items of None \<Rightarrow> Inl TypeError | Some ss \<Rightarrow> Inr (join sep ss))"

subsection \<open>HTTP\<close>

datatype http_method = GET | POST

record request =
  req_method :: http_method
  req_url :: string
  req_params :: "(string \<times> string) list"
  req_headers :: "(string \<times> string) list option"
  req_json :: "pyval option"
  req_timeout :: "nat option"

text \<open>
  What the code reads of a response: \<open>status_code\<close>, \<open>text\<close>, and the outcome of
  \<open>json()\<close>, which decodes the body or raises.
\<close>

record response =
  resp_status :: nat
  resp_text :: string
  resp_json :: "pyexn + pyval"

text \<open>
  The network is a parameter: \<open>net k req\<close> is what the \<open>requests\<close> library does with the
  request \<open>req\<close> when \<open>k\<close> requests were issued before it in the same call, a response or a
  raised exception. Every function that touches the network returns, beside its result,
  the list of the requests it issued, in order. \<open>exc_str\<close>, Python's \<open>str(e)\<close>, is a
  parameter too.
\<close>

type_synonym network = "nat \<Rightarrow> request \<Rightarrow> pyexn + response"

text \<open>The exceptions \<open>except requests.exceptions.RequestException\<close> catches.\<close>

fun is_request_exception :: "pyexn \<Rightarrow> bool" where
  "is_request_exception (RequestException d) = True"
| "is_request_exception (HTTPError st) = True"
| "is_request_exception e = False"

text \<open>
  \<open>requests.get(...)\<close> followed by \<open>raise_for_status()\<close> and \<open>.text\<close>: a status from 400 to
  599 raises HTTPError.
\<close>

definition get_text :: "network \<Rightarrow> nat \<Rightarrow> request \<Rightarrow> pyexn + string" where
  "get_text net k req =
     (case net k req of
        Inl e \<Rightarrow> Inl e
      | Inr resp \<Rightarrow>
          if 400 \<le> resp_status resp \<and> resp_status resp < 600 then Inl (HTTPError (resp_status resp))
          else Inr (resp_text resp))"

section \<open>Fetcher (scrape.py, advance\_scrape.py)\<close>






text \<open>advance\_scrape.py: \<open>_get\<close> turns a RequestException into the module's own exception.\<close>

definition DEFAULT_TIMEOUT :: nat where
  "DEFAULT_TIMEOUT = 30"

definition fetch_get ::
  "(pyexn \<Rightarrow> string) \<Rightarrow> network \<Rightarrow> string \<Rightarrow> (string \<times> string) list \<Rightarrow> nat
     \<Rightarrow> (pyexn + string) \<times> request list" where
  "fetch_get exc_str net url params tmo =
     (let req = \<lparr>req_method = GET, req_url = url, req_params = params, req_headers = None,
                 req_json = None, req_timeout = Some tmo\<rparr>
      in (case get_text net 0 req of
            Inr page \<Rightarrow> Inr page
          | Inl e \<Rightarrow>
              if is_request_exception e then Inl (AdvancedScraperError (exc_str e)) else Inl e,
          [req]))"

definition fetch_with_scraperapi where
  "fetch_with_scraperapi exc_str net url api_key tmo =
     fetch_get exc_str net ''https://api.scraperapi.com''
       [(''api_key'', api_key), (''url'', url), (''render'', ''false'')] tmo"

definition fetch_with_scrapingbee where
  "fetch_with_scrapingbee exc_str net url api_key render_js tmo =
     fetch_get exc_str net ''https://app.scrapingbee.com/api/v1''
       ([(''api_key'', api_key), (''url'', url)] @ (if render_js then [(''render_js'', ''true'')] else []))
       tmo"

definition fetch_with_scrapingdog where
  "fetch_with_scrapingdog exc_str net url api_key tmo =
     fetch_get exc_str net ''https://api.scrapingdog.com/scrape''
       [(''api_key'', api_key), (''url'', url)] tmo"

definition fetch_with_zenrows where
  "fetch_with_zenrows exc_str net url api_key tmo =
     fetch_get exc_str net ''https://api.zenrows.com/v1/''
       [(''apikey'', api_key), (''url'', url)] tmo"

definition no_provider_msg :: string where
  "no_provider_msg = ''No provider selected. Use the basic scraper or select a provider.''"

text \<open>
  \<open>generic_fetch(url, provider, api_key=None, timeout, **options)\<close>. \<open>provider\<close> and
  \<open>api_key\<close> may be \<open>None\<close>; \<open>not api_key\<close> holds for \<open>None\<close> and for the empty string. Of
  the options only the truth value of \<open>render_js\<close> is read (default \<open>False\<close>).
\<close>

definition generic_fetch ::
  "(pyexn \<Rightarrow> string) \<Rightarrow> network \<Rightarrow> string \<Rightarrow> string option \<Rightarrow> string option \<Rightarrow> nat
     \<Rightarrow> (string \<times> bool) list \<Rightarrow> (pyexn + string) \<times> request list" where
  "generic_fetch exc_str net url provider api_key tmo options =
     (case provider of
        None \<Rightarrow> (Inl (AdvancedScraperError no_provider_msg), [])
      | Some prov \<Rightarrow>
          if lower prov = ''none'' \<or> lower prov = ''basic''
          then (Inl (AdvancedScraperError no_provider_msg), [])
          else let p = lower prov in
            (case api_key of
               None \<Rightarrow> (Inl (AdvancedScraperError (''API key is required for provider: '' @ prov)), [])
             | Some k \<Rightarrow>
                 if k = [] then
                   (Inl (AdvancedScraperError (''API key is required for provider: '' @ prov)), [])
                 else if p = ''scraperapi'' then fetch_with_scraperapi exc_str net url k tmo
                 else if p = ''scrapingbee'' then
                   fetch_with_scrapingbee exc_str net url k
                     (case map_of options ''render_js'' of None \<Rightarrow> False | Some b \<Rightarrow> b) tmo
                 else if p = ''scrapingdog'' then fetch_with_scrapingdog exc_str net url k tmo
                 else if p = ''zenrows'' then fetch_with_zenrows exc_str net url k tmo
                 else (Inl (AdvancedScraperError (''Unknown provider: '' @ prov)), [])))"

section \<open>Content normalizer (scrape.py, clean\_body\_content)\<close>

text \<open>
  The markup parser is an external library. \<open>soup_text body\<close> stands for what
  \<open>BeautifulSoup(body, "html.parser")\<close> gives as \<open>get_text(separator="\n")\<close> once the
  script and style elements are extracted; the code's own part is the line clean-up.
\<close>

definition clean_body_content :: "(string \<Rightarrow> string) \<Rightarrow> string \<Rightarrow> string" where
  "clean_body_content soup_text body_content =
     (let cleaned = soup_text body_content
      in join [NL] (nonblank_lines cleaned))"


section \<open>Extraction driver (parse\_llm.py, parse\_with\_llm)\<close>

definition empty_content_msg :: string where
  "empty_content_msg =
     ''Error: The text content to parse is empty. Please check your scraping step.''"

definition invalid_provider_msg :: string where
  "invalid_provider_msg = ''Error: Invalid provider selected.''"

definition no_candidates_msg :: string where
  "no_candidates_msg = ''Error: Gemini returned no candidates (Safety filter?)''"

definition no_match_msg :: string where
  "no_match_msg = ''No matching data found in the content.''"

definition sentinel :: string where
  "sentinel = ''NO_DATA''"

text \<open>\<open>not chunk.strip()\<close>\<close>

definition blank :: "string \<Rightarrow> bool" where
  "blank chunk = (strip chunk = [])"

text \<open>Step 2 of the source: what the provider name fixes once per call.\<close>

record llm_config =
  cfg_model :: string
  cfg_base_url :: string
  cfg_headers :: "(string \<times> string) list"

definition configure :: "string \<Rightarrow> string \<Rightarrow> llm_config option" where
  "configure provider api_key =
     (if provider = ''gemini'' then
        Some \<lparr>cfg_model = ''gemini-2.0-flash'',
              cfg_base_url = ''https://generativelanguage.googleapis.com/v1beta/models/'' @
                             ''gemini-2.0-flash'' @ '':generateContent?key='' @ api_key,
              cfg_headers = [(''Content-Type'', ''application/json'')]\<rparr>
      else if provider = ''groq'' then
        Some \<lparr>cfg_model = ''llama3-70b-8192'',
              cfg_base_url = ''https://api.groq.com/openai/v1/chat/completions'',
              cfg_headers = [(''Content-Type'', ''application/json''),
                             (''Authorization'', ''Bearer '' @ api_key)]\<rparr>
      else if provider = ''openai'' then
        Some \<lparr>cfg_model = ''gpt-4o-mini'',
              cfg_base_url = ''https://api.openai.com/v1/chat/completions'',
              cfg_headers = [(''Content-Type'', ''application/json''),
                             (''Authorization'', ''Bearer '' @ api_key)]\<rparr>
      else None)"

text \<open>The prompt, an f-string over four indented lines.\<close>

definition prompt_of :: "string \<Rightarrow> string \<Rightarrow> string" where
  "prompt_of parse_description chunk =
     [NL] @ ''        Extract the following information: '' @ parse_description @
     [NL] @ ''        From this content: '' @ chunk @
     [NL] @ ''        '' @
     [NL] @ ''        If the information is NOT found, reply exactly with: '' @
            [CHR 0x22] @ ''NO_DATA'' @ [CHR 0x22] @
     [NL] @ ''        ''"

definition payload_of :: "string \<Rightarrow> llm_config \<Rightarrow> string \<Rightarrow> pyval" where
  "payload_of provider cfg prompt =
     (if provider = ''gemini'' then
        PDict [(''contents'', PList [PDict [(''parts'', PList [PDict [(''text'', PStr prompt)]])]])]
      else
        PDict [(''model'', PStr (cfg_model cfg)),
               (''messages'', PList [PDict [(''role'', PStr ''user''), (''content'', PStr prompt)]])])"

definition request_of :: "string \<Rightarrow> llm_config \<Rightarrow> string \<Rightarrow> string \<Rightarrow> request" where
  "request_of provider cfg parse_description chunk =
     \<lparr>req_method = POST, req_url = cfg_base_url cfg, req_params = [],
      req_headers = (if provider \<noteq> ''gemini'' then Some (cfg_headers cfg) else None),
      req_json = Some (payload_of provider cfg (prompt_of parse_description chunk)),
      req_timeout = None\<rparr>"

text \<open>Step 5: the model's text inside the provider's envelope.\<close>

definition result_text_of :: "string \<Rightarrow> pyval \<Rightarrow> pyexn + pyval" where
  "result_text_of provider data =
     (if provider = ''gemini'' then
        (case py_in ''candidates'' data of
           Inl e \<Rightarrow> Inl e
         | Inr False \<Rightarrow> Inr (PStr no_candidates_msg)
         | Inr True \<Rightarrow>
             (case getitem data (Key ''candidates'') of
                Inl e \<Rightarrow> Inl e
              | Inr c \<Rightarrow>
                  if truthy c then
                    getpath data [Key ''candidates'', Index0, Key ''content'', Key ''parts'',
                                  Index0, Key ''text'']
                  else Inr (PStr no_candidates_msg)))
      else getpath data [Key ''choices'', Index0, Key ''message'', Key ''content''])"

definition critical :: "(pyexn \<Rightarrow> string) \<Rightarrow> pyexn \<Rightarrow> pyval" where
  "critical exc_str e = PStr (''Critical Error: '' @ exc_str e)"

definition api_error :: "nat \<Rightarrow> response \<Rightarrow> pyval" where
  "api_error i resp =
     PStr (''Error (Chunk '' @ str_nat i @ ''): API returned '' @ str_nat (resp_status resp) @
           '' - '' @ resp_text resp)"

text \<open>
  One turn of the loop for chunk number \<open>i\<close>, when \<open>k\<close> requests were issued before: the
  items it appends to \<open>final_output\<close> and the requests it issues. The \<open>try\<close> spans from the
  request to the sentinel test, and \<open>except Exception\<close> catches whatever is raised there.
\<close>

definition process_chunk ::
  "(pyexn \<Rightarrow> string) \<Rightarrow> network \<Rightarrow> string \<Rightarrow> llm_config \<Rightarrow> string \<Rightarrow> nat \<Rightarrow> nat \<Rightarrow> string
     \<Rightarrow> pyval list \<times> request list" where
  "process_chunk exc_str net provider cfg parse_description k i chunk =
     (if blank chunk then ([], [])
      else let req = request_of provider cfg parse_description chunk in
        (case net k req of
           Inl e \<Rightarrow> ([critical exc_str e], [req])
         | Inr resp \<Rightarrow>
             if resp_status resp \<noteq> 200 then ([api_error i resp], [req])
             else
               (case resp_json resp of
                  Inl e \<Rightarrow> ([critical exc_str e], [req])
                | Inr data \<Rightarrow>
                    (case result_text_of provider data of
                       Inl e \<Rightarrow> ([critical exc_str e], [req])
                     | Inr result_text \<Rightarrow>
                         (case py_in sentinel result_text of
                            Inl e \<Rightarrow> ([critical exc_str e], [req])
                          | Inr True \<Rightarrow> ([], [req])
                          | Inr False \<Rightarrow> ([result_text], [req]))))))"

text \<open>
  \<open>for i, chunk in enumerate(dom_chunks)\<close>, with \<open>final_output\<close> and the request log as
  the state.
\<close>

fun chunk_loop ::
  "(pyexn \<Rightarrow> string) \<Rightarrow> network \<Rightarrow> string \<Rightarrow> llm_config \<Rightarrow> string \<Rightarrow> nat \<Rightarrow> string list
     \<Rightarrow> pyval list \<times> request list \<Rightarrow> pyval list \<times> request list" where
  "chunk_loop exc_str net provider cfg parse_description i [] st = st"
| "chunk_loop exc_str net provider cfg parse_description i (chunk # chunks) (final_output, log) =
     (let (items, reqs) =
            process_chunk exc_str net provider cfg parse_description (length log) i chunk
      in chunk_loop exc_str net provider cfg parse_description (Suc i) chunks
           (final_output @ items, log @ reqs))"

text \<open>Step 6. \<open>"\n".join(final_output)\<close> is outside every \<open>try\<close>.\<close>

definition final_result :: "pyval list \<Rightarrow> pyexn + string" where
  "final_result final_output =
     (if final_output = [] then Inr no_match_msg else py_join [NL] final_output)"

definition parse_with_llm ::
  "(pyexn \<Rightarrow> string) \<Rightarrow> network \<Rightarrow> string \<Rightarrow> string \<Rightarrow> string list \<Rightarrow> string
     \<Rightarrow> (pyexn + string) \<times> request list" where
  "parse_with_llm exc_str net provider api_key dom_chunks parse_description =
     (if dom_chunks = [] \<or> list_all blank dom_chunks then (Inr empty_content_msg, [])
      else
        (case configure provider api_key of
           None \<Rightarrow> (Inr invalid_provider_msg, [])
         | Some cfg \<Rightarrow>
             (let (final_output, log) =
                    chunk_loop exc_str net provider cfg parse_description 0 dom_chunks ([], [])
              in (final_result final_output, log))))"

section \<open>Tabular reconstructor (main.py, try\_to\_dataframe)\<close>

text \<open>
  \<open>pandas\<close> is an external library: \<open>read_html\<close> and \<open>read_csv\<close> are parameters, each
  returning its value or the exception it raises, and \<open>'df\<close> is the type of the frames
  they build. A frame the code builds itself is its column names and its rows.
\<close>

datatype 'df table =
    Parsed 'df
  | DataFrame "string list" "string list list"

text \<open>
  The loop over the separators. Beside its result (\<open>None\<close> when the loop ends without
  returning) it reports the separators \<open>read_csv\<close> was called with, in order.
\<close>

fun try_separators ::
  "(string \<Rightarrow> char \<Rightarrow> pyexn + 'df) \<Rightarrow> string \<Rightarrow> string \<Rightarrow> char list \<Rightarrow> 'df option \<times> char list" where
  "try_separators read_csv header joined [] = (None, [])"
| "try_separators read_csv header joined (sep # seps) =
     (if sep \<in> set header then
        (case read_csv joined sep of
           Inr df \<Rightarrow> (Some df, [sep])
         | Inl e \<Rightarrow>
             (let (r, tried) = try_separators read_csv header joined seps in (r, sep # tried)))
      else try_separators read_csv header joined seps)"

definition separators :: "char list" where
  "separators = [CHR 0x09, CHR ''|'', CHR '','', CHR '';'']"

text \<open>Strategies 3 and 4, the part of the function after the loop.\<close>

definition whitespace_columns :: "string list \<Rightarrow> 'df table" where
  "whitespace_columns lines =
     (let parts = map split_ws lines;
          lens = map length parts
      in if 2 \<le> length parts \<and> length (remdups lens) = 1 \<and> 1 < hd lens
         then DataFrame (hd parts) (tl parts)
         else DataFrame [''text''] (map (\<lambda>l. [l]) lines))"

text \<open>
  Strategy 1: \<open>dfs[0]\<close> when \<open>read_html\<close> returns a non-empty list; an exception it raises
  is swallowed.
\<close>

definition first_html_table :: "(string \<Rightarrow> pyexn + 'df list) \<Rightarrow> string \<Rightarrow> 'df option" where
  "first_html_table read_html parsed_text =
     (case read_html parsed_text of Inr (df # dfs) \<Rightarrow> Some df | Inr [] \<Rightarrow> None | Inl e \<Rightarrow> None)"

definition try_to_dataframe ::
  "(string \<Rightarrow> pyexn + 'df list) \<Rightarrow> (string \<Rightarrow> char \<Rightarrow> pyexn + 'df) \<Rightarrow> string \<Rightarrow> 'df table" where
  "try_to_dataframe read_html read_csv parsed_text =
     (case first_html_table read_html parsed_text of
        Some df \<Rightarrow> Parsed df
      | None \<Rightarrow>
          (case nonblank_lines parsed_text of
             [] \<Rightarrow> DataFrame [] []
           | header # rest \<Rightarrow>
               (let lines = header # rest in
                (case fst (try_separators read_csv header (join [NL] lines) separators) of
                   Some df \<Rightarrow> Parsed df
                 | None \<Rightarrow> whitespace_columns lines))))"

text \<open>A frame is well formed when every row has one cell per column.\<close>

fun well_formed :: "'df table \<Rightarrow> bool" where
  "well_formed (Parsed df) = True"
| "well_formed (DataFrame columns rows) = list_all (\<lambda>row. length row = length columns) rows"


section \<open>Stand-ins for the network and the libraries, for concrete runs\<close>

text \<open>A server that answers every request with status 200 and a page that begins with \<open>ERROR:\<close>.\<close>

definition error_page_net :: network where
  "error_page_net k req =
     Inr \<lparr>resp_status = 200, resp_text = ''ERROR: 0 results'', resp_json = Inl ValueError\<rparr>"

text \<open>
  The envelope of an OpenAI-compatible reply with status 200 whose \<open>content\<close> field holds
  \<open>v\<close>, and a reply with another status and a plain body.
\<close>

definition chat_reply :: "pyval \<Rightarrow> response" where
  "chat_reply v =
     \<lparr>resp_status = 200, resp_text = [],
      resp_json = Inr (PDict [(''choices'', PList [PDict [(''message'', PDict [(''content'', v)])]])])\<rparr>"

definition plain_reply :: "nat \<Rightarrow> string \<Rightarrow> response" where
  "plain_reply st body = \<lparr>resp_status = st, resp_text = body, resp_json = Inl ValueError\<rparr>"

text \<open>A provider whose \<open>content\<close> is a list of parts, and one that answers with empty text.\<close>

definition parts_net :: network where
  "parts_net k req = Inr (chat_reply (PList [PStr ''FieldX: foo'']))"

definition empty_text_net :: network where
  "empty_text_net k req = Inr (chat_reply (PStr []))"

text \<open>
  A provider that answers the first request with data and the second with the sentinel,
  and one whose second answer has status 500.
\<close>

definition sentinel_net :: network where
  "sentinel_net k req =
     Inr (chat_reply (PStr (if k = 0 then ''FieldX: foo'' else ''Sorry: NO_DATA here'')))"

definition flaky_net :: network where
  "flaky_net k req =
     (if k = 0 then Inr (chat_reply (PStr ''A: 1''))
      else if k = 1 then Inr (plain_reply 500 ''overloaded'')
      else Inr (chat_reply (PStr ''C: 3'')))"

text \<open>
  Stand-ins for \<open>pandas\<close>: a \<open>read_html\<close> that finds no table, and a strict \<open>read_csv\<close>
  that splits every line at the separator and raises when a record has more fields than
  the header.
\<close>

definition no_tables :: "string \<Rightarrow> pyexn + string list list list" where
  "no_tables s = Inl ValueError"

fun fields_from :: "char \<Rightarrow> string \<Rightarrow> string \<Rightarrow> string list" where
  "fields_from sep cur [] = [cur]"
| "fields_from sep cur (c # cs) =
     (if c = sep then cur # fields_from sep [] cs else fields_from sep (cur @ [c]) cs)"

definition strict_csv :: "string \<Rightarrow> char \<Rightarrow> pyexn + string list list" where
  "strict_csv s sep =
     (case map (fields_from sep []) (splitlines s) of
        [] \<Rightarrow> Inl ValueError
      | header # records \<Rightarrow>
          if list_all (\<lambda>r. length r \<le> length header) records then Inr (header # records)
          else Inl ValueError)"

text \<open>Three lines whose first line holds a tab and a comma; the third has a second tab.\<close>

definition mixed_text :: string where
  "mixed_text = [CHR ''a'', CHR 0x09, CHR ''b'', CHR '','', CHR ''c'', NL,
                 CHR ''1'', CHR 0x09, CHR ''2'', CHR '','', CHR ''3'', NL,
                 CHR ''4'', CHR 0x09, CHR ''5'', CHR 0x09, CHR ''6'', CHR '','', CHR ''7'']"

text \<open>
  A stand-in for the markup parser on text without tags: it replaces every character
  reference \<open>&amp;\<close> by the character it denotes, in one pass from left to right, and
  leaves everything else as it is (\<open>skip\<close> counts the characters of a reference still to
  be passed over).
\<close>

fun decode_from :: "nat \<Rightarrow> string \<Rightarrow> string" where
  "decode_from skip [] = []"
| "decode_from (Suc skip) (c # cs) = decode_from skip cs"
| "decode_from 0 (c # cs) =
     (if startswith (c # cs) ''&amp;'' then CHR ''&'' # decode_from 4 cs
      else c # decode_from 0 cs)"

definition decode_amp :: "string \<Rightarrow> string" where
  "decode_amp s = decode_from 0 s"

section \<open>Notions used to state the properties\<close>

text \<open>
  The number of requests issued before chunk \<open>j\<close> is reached (one for each chunk before
  it that is not whitespace-only), and the items the loop retains, chunk by chunk in the
  order of the chunks.
\<close>

definition calls_before :: "string list \<Rightarrow> nat \<Rightarrow> nat" where
  "calls_before chunks j = length (filter (\<lambda>c. \<not> blank c) (take j chunks))"

definition retained ::
  "(pyexn \<Rightarrow> string) \<Rightarrow> network \<Rightarrow> string \<Rightarrow> llm_config \<Rightarrow> string \<Rightarrow> string list \<Rightarrow> pyval list" where
  "retained exc_str net provider cfg parse_description chunks =
     concat (map (\<lambda>j. fst (process_chunk exc_str net provider cfg parse_description
                               (calls_before chunks j) j (chunks ! j)))
                 [0..<length chunks])"

section \<open>Facts about the string operations\<close>

lemma startswith_iff: "startswith s p = (\<exists>rest. s = p @ rest)"
  by (induction s p rule: startswith.induct) auto

lemma contains_iff: "contains needle s = (\<exists>pre post. s = pre @ needle @ post)"
proof (induction s)
  case Nil
  then show ?case by simp
next
  case (Cons c cs)
  show ?case
  proof
    assume "contains needle (c # cs)"
    then consider "startswith (c # cs) needle" | "contains needle cs" by auto
    then show "\<exists>pre post. c # cs = pre @ needle @ post"
    proof cases
      case 1
      then obtain rest where "c # cs = needle @ rest" by (auto simp: startswith_iff)
      then have "c # cs = [] @ needle @ rest" by simp
      then show ?thesis by blast
    next
      case 2
      with Cons obtain pre post where "cs = pre @ needle @ post" by blast
      then have "c # cs = (c # pre) @ needle @ post" by simp
      then show ?thesis by blast
    qed
  next
    assume "\<exists>pre post. c # cs = pre @ needle @ post"
    then obtain pre post where eq: "c # cs = pre @ needle @ post" by blast
    show "contains needle (c # cs)"
    proof (cases pre)
      case Nil
      with eq have "startswith (c # cs) needle" by (auto simp: startswith_iff)
      then show ?thesis by simp
    next
      case (Cons a pre')
      with eq have "cs = pre' @ needle @ post" by simp
      with Cons.IH have "contains needle cs" by blast
      then show ?thesis by simp
    qed
  qed
qed

section \<open>The chunker is exhaustive\<close>

lemma concat_slices:
  "0 < L \<Longrightarrow> concat (map (\<lambda>i. take L (drop i D)) (range_step i (length D) L)) = drop i D"
proof (induction i "length D" L rule: range_step.induct)
  case (1 i L)
  show ?case
  proof (cases "length D \<le> i")
    case True
    then show ?thesis by (simp add: range_step.simps [of i])
  next
    case False
    with 1 have ih: "concat (map (\<lambda>i. take L (drop i D)) (range_step (i + L) (length D) L))
                 = drop (i + L) D"
      by simp
    have unf: "range_step i (length D) L = i # range_step (i + L) (length D) L"
      using False 1(2) by (subst range_step.simps) simp
    have "take L (drop i D) @ drop (i + L) D = drop i D"
      by (metis add.commute append_take_drop_id drop_drop)
    then show ?thesis
      by (simp only: unf list.map concat.simps ih)
  qed
qed

lemma div_add_stride: "0 < (L::nat) \<Longrightarrow> (m + L) div L = Suc (m div L)"
  by (simp add: div_add_self2)

lemma length_range_step:
  "0 < L \<Longrightarrow> length (range_step i n L) = (n - i + L - 1) div L"
proof (induction i n L rule: range_step.induct)
  case (1 i n L)
  show ?case
  proof (cases "n \<le> i")
    case True
    with 1(2) show ?thesis by (simp add: range_step.simps [of i])
  next
    case False
    with 1 have ih: "length (range_step (i + L) n L) = (n - (i + L) + L - 1) div L"
      by simp
    show ?thesis
    proof (cases "n \<le> i + L")
      case True
      with False 1(2) have "(n - i + L - 1) div L = 1"
        by (intro div_nat_eqI) auto
      with True False 1(2) ih show ?thesis
        by (simp add: range_step.simps [of i])
    next
      case False
      define m where "m = n - (i + L) + L - 1"
      from False 1(2) have "n - i + L - 1 = m + L" by (simp add: m_def)
      moreover from 1(2) have "(m + L) div L = Suc (m div L)" by (rule div_add_stride)
      ultimately have d: "(n - i + L - 1) div L = Suc ((n - (i + L) + L - 1) div L)"
        by (simp only: m_def)
      have unf: "range_step i n L = i # range_step (i + L) n L"
        using \<open>\<not> n \<le> i\<close> 1(2) by (subst range_step.simps) simp
      show ?thesis
        by (simp only: unf list.size length_Cons ih d)
    qed
  qed
qed

lemma range_step_nth:
  "0 < L \<Longrightarrow> k < length (range_step i n L) \<Longrightarrow> range_step i n L ! k = i + k * L"
proof (induction i n L arbitrary: k rule: range_step.induct)
  case (1 i n L)
  from 1(3) have ni: "\<not> n \<le> i" by (auto simp: range_step.simps [of i] split: if_splits)
  show ?case
  proof (cases k)
    case 0
    with ni 1(2) show ?thesis by (simp add: range_step.simps [of i])
  next
    case (Suc j)
    with 1(3) ni 1(2) have "j < length (range_step (i + L) n L)"
      by (simp add: range_step.simps [of i])
    with 1(1) [of j] ni 1(2) have "range_step (i + L) n L ! j = i + L + j * L" by simp
    with Suc ni 1(2) show ?thesis by (simp add: range_step.simps [of i])
  qed
qed

lemma range_step_below:
  "0 < L \<Longrightarrow> x \<in> set (range_step i n L) \<Longrightarrow> x < n"
proof (induction i n L rule: range_step.induct)
  case (1 i n L)
  then show ?case
    by (cases "n \<le> i") (auto simp: range_step.simps [of i])
qed

text \<open>
  C1. For every document \<open>D\<close> and every bound \<open>L > 0\<close>, \<open>split_dom_content D L\<close> returns
  a chunk sequence (it does not raise) such that: concatenating the chunks in order gives
  back \<open>D\<close>; the number of chunks is \<open>ceil(len(D) / L)\<close>, written \<open>(len(D) + L - 1) div L\<close>;
  chunk \<open>k\<close> is the slice \<open>D[k * L : (k + 1) * L]\<close>; every chunk except possibly the last
  has length exactly \<open>L\<close>, the last one is non-empty and no longer than \<open>L\<close>; and the
  empty document yields the empty sequence.
\<close>

theorem split_dom_content_exhaustive:
  assumes "0 < L"
  shows "\<exists>cs. split_dom_content D L = Inr cs
            \<and> concat cs = D
            \<and> int (length cs) = (int (length D) + L - 1) div L
            \<and> (\<forall>k < length cs. cs ! k = take (nat L) (drop (k * nat L) D))
            \<and> (\<forall>k. Suc k < length cs \<longrightarrow> length (cs ! k) = nat L)
            \<and> (cs \<noteq> [] \<longrightarrow> 0 < length (last cs) \<and> length (last cs) \<le> nat L)
            \<and> split_dom_content ([] :: 'a list) L = Inr []"
proof -
  define l where "l = nat L"
  define starts where "starts = range_step 0 (length D) l"
  define cs where "cs = map (\<lambda>i. take l (drop i D)) starts"
  from assms have l: "0 < l" and Ll: "L = int l" by (simp_all add: l_def)
  from assms have run: "split_dom_content D L = Inr cs"
    by (simp add: split_dom_content_def cs_def starts_def l_def)
  have cat: "concat cs = D"
    using concat_slices [OF l, of D 0] by (simp add: cs_def starts_def)
  have len: "length cs = (length D + l - 1) div l"
    using length_range_step [OF l, of 0 "length D"] by (simp add: cs_def starts_def)
  have "int ((length D + l - 1) div l) = (int (length D) + int l - 1) div int l"
    using l by (simp add: zdiv_int of_nat_diff)
  with len have count: "int (length cs) = (int (length D) + L - 1) div L"
    by (simp add: Ll)
  have nth: "cs ! k = take l (drop (k * l) D)" and below: "k * l < length D"
    if "k < length cs" for k
  proof -
    from that have k: "k < length starts" by (simp add: cs_def)
    then have v: "starts ! k = k * l"
      using range_step_nth [OF l, of k 0 "length D"] by (simp add: starts_def)
    from k show "cs ! k = take l (drop (k * l) D)" by (simp add: cs_def v)
    from k have "starts ! k \<in> set starts" by simp
    then have "starts ! k < length D"
      using range_step_below [OF l, of "starts ! k" 0 "length D"] by (simp add: starts_def)
    then show "k * l < length D" by (simp only: v)
  qed
  have full: "length (cs ! k) = l" if "Suc k < length cs" for k
  proof -
    from that have "Suc k * l < length D" by (rule below)
    then have "l \<le> length D - k * l" by simp
    moreover from that have "cs ! k = take l (drop (k * l) D)" by (simp add: nth)
    ultimately show ?thesis by simp
  qed
  have lst: "0 < length (last cs) \<and> length (last cs) \<le> l" if "cs \<noteq> []"
  proof -
    from that have k: "length cs - 1 < length cs" by simp
    from that have "last cs = cs ! (length cs - 1)" by (rule last_conv_nth)
    with nth [OF k] have "last cs = take l (drop ((length cs - 1) * l) D)" by simp
    with below [OF k] l show ?thesis by simp
  qed
  from assms have "split_dom_content ([] :: 'a list) L = Inr []"
    by (simp add: split_dom_content_def range_step.simps)
  with run cat count nth full lst show ?thesis
    by (intro exI [of _ cs]) (simp add: l_def)
qed

theorem split_dom_content_exhaustive_witness:
  "(0::int) < 3 \<and> split_dom_content ''abcdefg'' 3 = Inr [''abc'', ''def'', ''g'']"
proof -
  have h: "(0::int) < 3" by simp
  from split_dom_content_exhaustive [OF h, of "''abcdefg''"]
  obtain cs where run: "split_dom_content ''abcdefg'' 3 = Inr cs"
    and n: "int (length cs) = (int (length ''abcdefg'') + 3 - 1) div 3"
    and nth: "\<forall>k < length cs. cs ! k = take (nat 3) (drop (k * nat 3) ''abcdefg'')"
    by blast
  from n have len: "length cs = 3" by simp
  then obtain a b c where abc: "cs = [a, b, c]"
    by (auto simp: numeral_3_eq_3 length_Suc_conv)
  from nth len have "cs ! 0 = ''abc''" "cs ! 1 = ''def''" "cs ! 2 = ''g''"
    by simp_all
  with abc have "cs = [''abc'', ''def'', ''g'']" by simp
  with run h show ?thesis by simp
qed

section \<open>The fetcher\<close>



section \<open>The extraction driver\<close>

text \<open>
  C10. For every provider identifier other than \<open>gemini\<close>, \<open>groq\<close> and \<open>openai\<close>, and every
  chunk sequence that is non-empty and not made of whitespace-only chunks alone,
  \<open>parse_with_llm\<close> returns exactly \<open>Error: Invalid provider selected.\<close> and issues no
  network request.
\<close>

theorem invalid_provider_rejected:
  assumes "provider \<notin> {''gemini'', ''groq'', ''openai''}"
    and "dom_chunks \<noteq> []" and "\<not> list_all blank dom_chunks"
  shows "parse_with_llm exc_str net provider api_key dom_chunks parse_description
           = (Inr ''Error: Invalid provider selected.'', [])"
proof -
  from assms(1) have "configure provider api_key = None"
    by (simp add: configure_def)
  with assms(2,3) show ?thesis
    by (simp add: parse_with_llm_def invalid_provider_msg_def)
qed

theorem invalid_provider_rejected_witness:
  "''claude'' \<notin> {''gemini'', ''groq'', ''openai''} \<and> [''  '', ''data''] \<noteq> []
   \<and> \<not> list_all blank [''  '', ''data'']
   \<and> parse_with_llm (\<lambda>e. ''boom'') error_page_net ''claude'' ''key'' [''  '', ''data''] ''names''
       = (Inr ''Error: Invalid provider selected.'', [])"
proof -
  have a: "''claude'' \<notin> {''gemini'', ''groq'', ''openai''}" by simp
  have b: "[''  '', ''data''] \<noteq> []" by simp
  have c: "\<not> list_all blank [''  '', ''data'']"
    by (simp add: blank_def strip_def is_space_def whitespace_def)
  from invalid_provider_rejected [OF a b c] a b c show ?thesis by simp
qed

text \<open>
  C7. Provider-delegated fetch fails fast. For every URL, \<open>generic_fetch\<close> called with a
  missing or empty credential, with a provider id that is missing or resolves to \<open>none\<close> or
  \<open>basic\<close>, or with a provider id that is none of the four supported ones, raises the
  module's own AdvancedScraperError (saying that no provider is selected, that the API key
  is required, or that the provider is unknown) and issues no network request.
\<close>

theorem generic_fetch_fails_fast:
  assumes "provider = None \<or> lower (the provider) \<in> {''none'', ''basic''}
           \<or> api_key = None \<or> api_key = Some []
           \<or> lower (the provider) \<notin> {''scraperapi'', ''scrapingbee'', ''scrapingdog'', ''zenrows''}"
  shows "generic_fetch exc_str net url provider api_key tmo options =
           (Inl (AdvancedScraperError
                  (if provider = None \<or> lower (the provider) \<in> {''none'', ''basic''}
                   then ''No provider selected. Use the basic scraper or select a provider.''
                   else if api_key = None \<or> api_key = Some []
                   then ''API key is required for provider: '' @ the provider
                   else ''Unknown provider: '' @ the provider)),
            [])"
  using assms
  by (auto simp: generic_fetch_def no_provider_msg_def Let_def split: option.splits)

theorem generic_fetch_fails_fast_witness:
  "generic_fetch (\<lambda>e. ''boom'') error_page_net ''http://example.org'' (Some ''ScraperAPI'') (Some '''')
       30 []
     = (Inl (AdvancedScraperError ''API key is required for provider: ScraperAPI''), [])
   \<and> generic_fetch (\<lambda>e. ''boom'') error_page_net ''http://example.org'' (Some ''Basic'') (Some ''k'')
       30 []
     = (Inl (AdvancedScraperError
              ''No provider selected. Use the basic scraper or select a provider.''), [])
   \<and> generic_fetch (\<lambda>e. ''boom'') error_page_net ''http://example.org'' (Some ''zyte'') (Some ''k'')
       30 []
     = (Inl (AdvancedScraperError ''Unknown provider: zyte''), [])"
proof -
  have low: "lower ''ScraperAPI'' = ''scraperapi''" "lower ''Basic'' = ''basic''"
    "lower ''zyte'' = ''zyte''"
    by (simp_all add: lower_def lower_char_def upper_letters_def lower_letters_def)
  have 1: "Some ''ScraperAPI'' = None \<or> lower (the (Some ''ScraperAPI'')) \<in> {''none'', ''basic''}
           \<or> Some '''' = None \<or> Some '''' = Some []
           \<or> lower (the (Some ''ScraperAPI'')) \<notin> {''scraperapi'', ''scrapingbee'', ''scrapingdog'', ''zenrows''}"
    by simp
  have 2: "Some ''Basic'' = None \<or> lower (the (Some ''Basic'')) \<in> {''none'', ''basic''}
           \<or> Some ''k'' = None \<or> Some ''k'' = Some []
           \<or> lower (the (Some ''Basic'')) \<notin> {''scraperapi'', ''scrapingbee'', ''scrapingdog'', ''zenrows''}"
    by (simp add: low)
  have 3: "Some ''zyte'' = None \<or> lower (the (Some ''zyte'')) \<in> {''none'', ''basic''}
           \<or> Some ''k'' = None \<or> Some ''k'' = Some []
           \<or> lower (the (Some ''zyte'')) \<notin> {''scraperapi'', ''scrapingbee'', ''scrapingdog'', ''zenrows''}"
    by (simp add: low)
  from generic_fetch_fails_fast [OF 1] generic_fetch_fails_fast [OF 2]
    generic_fetch_fails_fast [OF 3]
  show ?thesis by (simp add: low)
qed

section \<open>The extraction loop\<close>

lemma process_chunk_requests:
  "length (snd (process_chunk exc_str net provider cfg d k i chunk)) = (if blank chunk then 0 else 1)"
  by (simp add: process_chunk_def Let_def split: sum.splits bool.splits)

lemma chunk_loop_items:
  "fst (chunk_loop exc_str net provider cfg d i chunks (out, log)) =
     out @ concat (map (\<lambda>j. fst (process_chunk exc_str net provider cfg d
                                   (length log + calls_before chunks j) (i + j) (chunks ! j)))
                       [0..<length chunks])"
proof (induction chunks arbitrary: i out log)
  case Nil
  then show ?case by simp
next
  case (Cons chunk chunks)
  obtain items reqs where pc:
    "process_chunk exc_str net provider cfg d (length log) i chunk = (items, reqs)"
    by (cases "process_chunk exc_str net provider cfg d (length log) i chunk")
  from process_chunk_requests [of exc_str net provider cfg d "length log" i chunk] pc
  have lr: "length reqs = (if blank chunk then 0 else 1)" by simp
  have cb: "length log + calls_before (chunk # chunks) (Suc j) = length (log @ reqs) + calls_before chunks j"
    for j using lr by (simp add: calls_before_def)
  have range: "[0..<length (chunk # chunks)] = 0 # map Suc [0..<length chunks]"
    by (simp add: upt_conv_Cons map_Suc_upt del: upt_Suc)
  have step: "chunk_loop exc_str net provider cfg d i (chunk # chunks) (out, log)
                = chunk_loop exc_str net provider cfg d (Suc i) chunks (out @ items, log @ reqs)"
    by (simp add: pc)
  have first: "fst (process_chunk exc_str net provider cfg d
                 (length log + calls_before (chunk # chunks) 0) (i + 0) ((chunk # chunks) ! 0)) = items"
    by (simp add: calls_before_def pc)
  have rest: "process_chunk exc_str net provider cfg d
                 (length log + calls_before (chunk # chunks) (Suc j)) (i + Suc j) ((chunk # chunks) ! Suc j)
              = process_chunk exc_str net provider cfg d
                 (length (log @ reqs) + calls_before chunks j) (Suc i + j) (chunks ! j)" for j
    by (simp only: cb nth_Cons_Suc add_Suc_right add_Suc)
  show ?case
    by (simp only: step Cons.IH range list.map map_map o_def first rest concat.simps append_assoc)
qed

lemma chunk_loop_retained:
  "fst (chunk_loop exc_str net provider cfg d 0 chunks ([], [])) = retained exc_str net provider cfg d chunks"
  by (simp add: chunk_loop_items retained_def)

section \<open>The extraction driver: errors, the sentinel and the final result\<close>

lemmas run_simps =
  parse_with_llm_def configure_def process_chunk_def request_of_def payload_of_def
  prompt_of_def blank_def strip_def is_space_def whitespace_def result_text_of_def
  final_result_def py_join_def sentinel_def api_error_def critical_def no_match_msg_def
  chat_reply_def plain_reply_def digit_char_def NL_def

text \<open>
  What the loop does with a failed chunk: a status other than 200 is recorded as a string
  with the chunk index, the status and the body; an exception raised by the request, by
  \<open>json()\<close>, by the subscripts into the envelope or by the sentinel test is recorded as a
  string tagged \<open>Critical Error\<close>. In both cases exactly one string is appended.
\<close>

lemma non_200_recorded:
  assumes "\<not> blank chunk" and "net k (request_of provider cfg d chunk) = Inr resp"
    and "resp_status resp \<noteq> 200"
  shows "process_chunk exc_str net provider cfg d k i chunk =
           ([PStr (''Error (Chunk '' @ str_nat i @ ''): API returned '' @
                   str_nat (resp_status resp) @ '' - '' @ resp_text resp)],
            [request_of provider cfg d chunk])"
  using assms by (simp add: process_chunk_def api_error_def)

lemma request_exception_recorded:
  assumes "\<not> blank chunk" and "net k (request_of provider cfg d chunk) = Inl e"
  shows "process_chunk exc_str net provider cfg d k i chunk =
           ([PStr (''Critical Error: '' @ exc_str e)], [request_of provider cfg d chunk])"
  using assms by (simp add: process_chunk_def critical_def)

lemma parse_exception_recorded:
  assumes "\<not> blank chunk" and "net k (request_of provider cfg d chunk) = Inr resp"
    and "resp_status resp = 200"
    and "resp_json resp = Inl e \<or> (\<exists>data. resp_json resp = Inr data \<and> result_text_of provider data = Inl e)"
  shows "process_chunk exc_str net provider cfg d k i chunk =
           ([PStr (''Critical Error: '' @ exc_str e)], [request_of provider cfg d chunk])"
  using assms by (auto simp: process_chunk_def critical_def)

lemma strings_of_map_PStr: "strings_of (map PStr ss) = Some ss"
  by (induction ss) simp_all

lemma strings_of_Some: "strings_of vs = Some ss \<Longrightarrow> vs = map PStr ss"
  by (induction vs arbitrary: ss rule: strings_of.induct) (auto split: option.splits)

text \<open>The only exception a call can raise is the TypeError of the final join.\<close>

lemma parse_with_llm_raises_only_at_join:
  assumes "fst (parse_with_llm exc_str net provider api_key chunks d) = Inl e"
  shows "e = TypeError \<and>
         (\<exists>cfg. configure provider api_key = Some cfg \<and>
                strings_of (retained exc_str net provider cfg d chunks) = None)"
proof (cases "chunks = [] \<or> list_all blank chunks")
  case True
  with assms show ?thesis by (simp add: parse_with_llm_def)
next
  case False
  show ?thesis
  proof (cases "configure provider api_key")
    case None
    with False assms show ?thesis by (simp add: parse_with_llm_def)
  next
    case (Some cfg)
    with False assms
    have "final_result (retained exc_str net provider cfg d chunks) = Inl e"
      by (simp add: parse_with_llm_def split_beta chunk_loop_retained)
    with Some show ?thesis
      by (auto simp: final_result_def py_join_def split: if_splits option.splits)
  qed
qed

text \<open>
  C3. Error isolation in \<open>parse_with_llm\<close>. Inside the loop the claim holds (the three
  lemmas above). Its conclusion, that a call over any chunk sequence never raises and
  always produces a result string, fails in the code: a reply with status 200 whose text
  field holds a list passes the sentinel test and is retained as it is, and
  \<open>"\n".join(final_output)\<close>, which no \<open>try\<close> covers, raises TypeError.
\<close>

theorem parse_with_llm_raises_on_list_content:
  "fst (parse_with_llm (\<lambda>e. ''boom'') parts_net ''openai'' ''key'' [''data''] ''names'')
     = Inl TypeError"
  by (simp add: run_simps parts_net_def)

text \<open>
  The loop over a list that is cut in two is the loop over the second part, started in
  the state the first part leaves; and what the loop finds in \<open>final_output\<close> it keeps
  in front of what it appends.
\<close>

lemma chunk_loop_append:
  "chunk_loop exc_str net provider cfg d i (xs @ ys) st =
     chunk_loop exc_str net provider cfg d (i + length xs) ys
       (chunk_loop exc_str net provider cfg d i xs st)"
proof (induction xs arbitrary: i st)
  case Nil
  then show ?case by simp
next
  case (Cons x xs)
  obtain out log where st: "st = (out, log)" by (cases st)
  obtain items reqs where pc:
    "process_chunk exc_str net provider cfg d (length log) i x = (items, reqs)"
    by (cases "process_chunk exc_str net provider cfg d (length log) i x")
  show ?case
    by (simp add: st pc Cons.IH)
qed

lemma chunk_loop_accumulates:
  "chunk_loop exc_str net provider cfg d i xs (out, log) =
     (out @ fst (chunk_loop exc_str net provider cfg d i xs ([], log)),
      snd (chunk_loop exc_str net provider cfg d i xs ([], log)))"
proof (induction xs arbitrary: i out log)
  case Nil
  then show ?case by simp
next
  case (Cons x xs)
  obtain items reqs where pc:
    "process_chunk exc_str net provider cfg d (length log) i x = (items, reqs)"
    by (cases "process_chunk exc_str net provider cfg d (length log) i x")
  have l: "chunk_loop exc_str net provider cfg d i (x # xs) (out, log)
             = chunk_loop exc_str net provider cfg d (Suc i) xs (out @ items, log @ reqs)"
    by (simp add: pc)
  have r: "chunk_loop exc_str net provider cfg d i (x # xs) ([], log)
             = chunk_loop exc_str net provider cfg d (Suc i) xs (items, log @ reqs)"
    by (simp add: pc)
  have a: "chunk_loop exc_str net provider cfg d (Suc i) xs (out @ items, log @ reqs) =
      ((out @ items) @ fst (chunk_loop exc_str net provider cfg d (Suc i) xs ([], log @ reqs)),
       snd (chunk_loop exc_str net provider cfg d (Suc i) xs ([], log @ reqs)))"
    by (rule Cons.IH)
  have b: "chunk_loop exc_str net provider cfg d (Suc i) xs (items, log @ reqs) =
      (items @ fst (chunk_loop exc_str net provider cfg d (Suc i) xs ([], log @ reqs)),
       snd (chunk_loop exc_str net provider cfg d (Suc i) xs ([], log @ reqs)))"
    by (rule Cons.IH)
  show ?case by (simp only: l r a b fst_conv snd_conv append_assoc)
qed

lemma parse_with_llm_loop:
  assumes "configure provider api_key = Some cfg"
    and "dom_chunks \<noteq> []" and "\<not> list_all blank dom_chunks"
  shows "fst (parse_with_llm exc_str net provider api_key dom_chunks d) =
           final_result (fst (chunk_loop exc_str net provider cfg d 0 dom_chunks ([], [])))"
  using assms by (simp add: parse_with_llm_def split_beta)

lemma final_result_strings:
  "final_result (map PStr ss) =
     Inr (if ss = [] then ''No matching data found in the content.'' else join [NL] ss)"
  by (simp add: final_result_def py_join_def strings_of_map_PStr no_match_msg_def)

text \<open>
  C4. Sentinel filtering, on the loop and on the merged output. Let the loop reach chunk
  \<open>j\<close>, which is not whitespace-only, with \<open>final_output = out\<close> and the request log \<open>log\<close>,
  and let the reply to its request have status 200 and an envelope that yields the text
  \<open>t\<close>. If \<open>NO_DATA\<close> occurs anywhere in \<open>t\<close>, whatever else \<open>t\<close> holds, the turn appends
  nothing; if it does not, the turn appends exactly \<open>t\<close>. What is appended stays: the
  final \<open>final_output\<close> is \<open>out\<close>, then this contribution, then what the later chunks
  append, and \<open>parse_with_llm\<close> returns the final result of this list. When the other
  retained items are strings, the merged output is their newline-join with \<open>t\<close> at its
  place if \<open>t\<close> has no sentinel, and without any trace of \<open>t\<close> if it has one.
\<close>

theorem sentinel_filtering:
  assumes "configure provider api_key = Some cfg"
    and "j < length chunks" and "\<not> blank (chunks ! j)"
    and "chunk_loop exc_str net provider cfg d 0 (take j chunks) ([], []) = (out, log)"
    and "net (length log) (request_of provider cfg d (chunks ! j)) = Inr resp"
    and "resp_status resp = 200" and "resp_json resp = Inr data"
    and "result_text_of provider data = Inr (PStr t)"
  shows "chunk_loop exc_str net provider cfg d 0 (take (Suc j) chunks) ([], []) =
           (out @ (if \<exists>pre post. t = pre @ ''NO_DATA'' @ post then [] else [PStr t]),
            log @ [request_of provider cfg d (chunks ! j)])
       \<and> fst (chunk_loop exc_str net provider cfg d 0 chunks ([], [])) =
           out @ (if \<exists>pre post. t = pre @ ''NO_DATA'' @ post then [] else [PStr t])
               @ fst (chunk_loop exc_str net provider cfg d (Suc j) (drop (Suc j) chunks)
                        ([], log @ [request_of provider cfg d (chunks ! j)]))
       \<and> fst (parse_with_llm exc_str net provider api_key chunks d) =
           final_result
             (out @ (if \<exists>pre post. t = pre @ ''NO_DATA'' @ post then [] else [PStr t])
                  @ fst (chunk_loop exc_str net provider cfg d (Suc j) (drop (Suc j) chunks)
                           ([], log @ [request_of provider cfg d (chunks ! j)])))
       \<and> (\<forall>before after.
             out = map PStr before
             \<and> fst (chunk_loop exc_str net provider cfg d (Suc j) (drop (Suc j) chunks)
                      ([], log @ [request_of provider cfg d (chunks ! j)])) = map PStr after
             \<longrightarrow> fst (parse_with_llm exc_str net provider api_key chunks d) =
                   Inr (if \<exists>pre post. t = pre @ ''NO_DATA'' @ post
                        then (if before @ after = []
                              then ''No matching data found in the content.''
                              else join [NL] (before @ after))
                        else join [NL] (before @ t # after)))"
proof -
  let ?req = "request_of provider cfg d (chunks ! j)"
  let ?mid = "if \<exists>pre post. t = pre @ ''NO_DATA'' @ post then [] else [PStr t]"
  let ?rest = "fst (chunk_loop exc_str net provider cfg d (Suc j) (drop (Suc j) chunks)
                      ([], log @ [?req]))"
  from assms(3,5-8)
  have "process_chunk exc_str net provider cfg d (length log) j (chunks ! j)
          = (if contains ''NO_DATA'' t then [] else [PStr t], [?req])"
    by (simp add: process_chunk_def sentinel_def)
  then have turn: "process_chunk exc_str net provider cfg d (length log) j (chunks ! j)
          = (?mid, [?req])"
    by (simp only: contains_iff)
  from assms(2) have tk: "take (Suc j) chunks = take j chunks @ [chunks ! j]"
    by (rule take_Suc_conv_app_nth)
  from assms(2) have lj: "length (take j chunks) = j" by simp
  have "chunk_loop exc_str net provider cfg d 0 (take (Suc j) chunks) ([], [])
          = chunk_loop exc_str net provider cfg d (0 + length (take j chunks)) [chunks ! j]
              (chunk_loop exc_str net provider cfg d 0 (take j chunks) ([], []))"
    by (simp only: tk chunk_loop_append)
  also have "\<dots> = chunk_loop exc_str net provider cfg d j [chunks ! j] (out, log)"
    by (simp only: lj assms(4) add_0)
  also have "\<dots> = (out @ ?mid, log @ [?req])"
    by (simp add: turn)
  finally have A: "chunk_loop exc_str net provider cfg d 0 (take (Suc j) chunks) ([], [])
                     = (out @ ?mid, log @ [?req])" .
  from assms(2) have ls: "length (take (Suc j) chunks) = Suc j" by simp
  have "chunk_loop exc_str net provider cfg d 0 (take (Suc j) chunks @ drop (Suc j) chunks) ([], [])
          = chunk_loop exc_str net provider cfg d (0 + length (take (Suc j) chunks))
              (drop (Suc j) chunks)
              (chunk_loop exc_str net provider cfg d 0 (take (Suc j) chunks) ([], []))"
    by (rule chunk_loop_append)
  then have "chunk_loop exc_str net provider cfg d 0 chunks ([], [])
          = chunk_loop exc_str net provider cfg d (Suc j) (drop (Suc j) chunks)
              (out @ ?mid, log @ [?req])"
    by (simp only: append_take_drop_id ls A add_0)
  then have "fst (chunk_loop exc_str net provider cfg d 0 chunks ([], []))
          = (out @ ?mid) @ ?rest"
    by (simp only: chunk_loop_accumulates [of _ _ _ _ _ _ _ "out @ ?mid"] fst_conv)
  then have B: "fst (chunk_loop exc_str net provider cfg d 0 chunks ([], [])) = out @ ?mid @ ?rest"
    by (simp only: append_assoc)
  from assms(2) have ne: "chunks \<noteq> []" by auto
  from assms(2,3) have nb: "\<not> list_all blank chunks"
    by (auto simp: list_all_length)
  have C: "fst (parse_with_llm exc_str net provider api_key chunks d)
             = final_result (out @ ?mid @ ?rest)"
    by (simp only: parse_with_llm_loop [OF assms(1) ne nb] B)
  have D: "fst (parse_with_llm exc_str net provider api_key chunks d) =
             Inr (if \<exists>pre post. t = pre @ ''NO_DATA'' @ post
                  then (if before @ after = []
                        then ''No matching data found in the content.''
                        else join [NL] (before @ after))
                  else join [NL] (before @ t # after))"
    if "out = map PStr before \<and> ?rest = map PStr after" for before after
  proof (cases "\<exists>pre post. t = pre @ ''NO_DATA'' @ post")
    case True
    with that have "out @ ?mid @ ?rest = map PStr (before @ after)" by simp
    then have "fst (parse_with_llm exc_str net provider api_key chunks d)
                 = final_result (map PStr (before @ after))"
      by (simp only: C)
    then show ?thesis by (simp only: final_result_strings True if_True)
  next
    case False
    with that have "out @ ?mid @ ?rest = map PStr (before @ t # after)" by simp
    then have "fst (parse_with_llm exc_str net provider api_key chunks d)
                 = final_result (map PStr (before @ t # after))"
      by (simp only: C)
    then have r: "fst (parse_with_llm exc_str net provider api_key chunks d)
                 = Inr (if before @ t # after = []
                        then ''No matching data found in the content.''
                        else join [NL] (before @ t # after))"
      by (simp only: final_result_strings)
    have ne: "(before @ t # after = []) = False" by simp
    show ?thesis by (simp only: r ne False if_False)
  qed
  from A B C D show ?thesis by blast
qed


theorem sentinel_filtering_witness:
  "configure ''openai'' ''key'' \<noteq> None
   \<and> \<not> blank ''data1'' \<and> \<not> blank ''data2''
   \<and> chunk_loop (\<lambda>e. ''boom'') sentinel_net ''openai'' (the (configure ''openai'' ''key'')) ''names''
         0 [''data1''] ([], [])
       = ([PStr ''FieldX: foo''],
          [request_of ''openai'' (the (configure ''openai'' ''key'')) ''names'' ''data1''])
   \<and> chunk_loop (\<lambda>e. ''boom'') sentinel_net ''openai'' (the (configure ''openai'' ''key'')) ''names''
         0 [''data1'', ''data2''] ([], [])
       = ([PStr ''FieldX: foo''],
          [request_of ''openai'' (the (configure ''openai'' ''key'')) ''names'' ''data1'',
           request_of ''openai'' (the (configure ''openai'' ''key'')) ''names'' ''data2''])
   \<and> fst (parse_with_llm (\<lambda>e. ''boom'') sentinel_net ''openai'' ''key'' [''data1'', ''data2'']
            ''names'')
       = Inr ''FieldX: foo''"
proof -
  let ?chunks = "[''data1'', ''data2'']"
  let ?cfg = "the (configure ''openai'' ''key'')"
  let ?exc = "\<lambda>e::pyexn. ''boom''"
  let ?r1 = "request_of ''openai'' ?cfg ''names'' ''data1''"
  let ?r2 = "request_of ''openai'' ?cfg ''names'' ''data2''"
  let ?good = "''FieldX: foo''"
  let ?bad = "''Sorry: NO_DATA here''"
  let ?env = "\<lambda>v. PDict [(''choices'', PList [PDict [(''message'', PDict [(''content'', v)])]])]"
  have cfg: "configure ''openai'' ''key'' = Some ?cfg" by (simp add: configure_def)
  have cfg': "configure ''openai'' ''key'' \<noteq> None" by (simp add: configure_def)
  have b1: "\<not> blank ''data1''" and b2: "\<not> blank ''data2''" by (simp_all add: run_simps)
  have nth: "?chunks ! 0 = ''data1''" "?chunks ! Suc 0 = ''data2''" by simp_all
  have st: "resp_status (chat_reply v) = 200" and js: "resp_json (chat_reply v) = Inr (?env v)"
    for v by (simp_all add: chat_reply_def)
  have tx: "result_text_of ''openai'' (?env (PStr u)) = Inr (PStr u)" for u
    by (simp add: result_text_of_def)
  have "contains ''NO_DATA'' ?good = False" by simp
  then have clean: "(\<exists>pre post. ?good = pre @ ''NO_DATA'' @ post) = False"
    by (simp only: contains_iff)
  have "contains ''NO_DATA'' ?bad = True" by simp
  then have dirty: "(\<exists>pre post. ?bad = pre @ ''NO_DATA'' @ post) = True"
    by (simp only: contains_iff)

  have j0: "0 < length ?chunks" by simp
  have b0: "\<not> blank (?chunks ! 0)" using b1 by simp
  have l0: "chunk_loop ?exc sentinel_net ''openai'' ?cfg ''names'' 0 (take 0 ?chunks) ([], [])
              = ([], [])" by simp
  have n0: "sentinel_net (length ([] :: request list)) (request_of ''openai'' ?cfg ''names'' (?chunks ! 0))
              = Inr (chat_reply (PStr ?good))"
    by (simp add: sentinel_net_def)
  from sentinel_filtering [where net = sentinel_net and chunks = ?chunks and j = 0
      and provider = "''openai''" and api_key = "''key''" and cfg = ?cfg and d = "''names''"
      and out = "[]" and log = "[]" and resp = "chat_reply (PStr ?good)"
      and data = "?env (PStr ?good)" and t = ?good and exc_str = ?exc,
      OF cfg j0 b0 l0 n0 st js tx]
  have "chunk_loop ?exc sentinel_net ''openai'' ?cfg ''names'' 0 (take (Suc 0) ?chunks) ([], [])
          = ([] @ (if \<exists>pre post. ?good = pre @ ''NO_DATA'' @ post then [] else [PStr ?good]),
             [] @ [request_of ''openai'' ?cfg ''names'' (?chunks ! 0)])"
    by (rule conjunct1)
  then have first: "chunk_loop ?exc sentinel_net ''openai'' ?cfg ''names'' 0 (take (Suc 0) ?chunks) ([], [])
          = ([PStr ?good], [?r1])"
    by (simp only: clean if_False nth append_Nil)
  have tk1: "take (Suc 0) ?chunks = [''data1'']" by simp
  from first have one: "chunk_loop ?exc sentinel_net ''openai'' ?cfg ''names'' 0 [''data1''] ([], [])
          = ([PStr ?good], [?r1])"
    by (simp only: tk1)

  have j1: "Suc 0 < length ?chunks" by simp
  have b1': "\<not> blank (?chunks ! Suc 0)" using b2 by simp
  have n1: "sentinel_net (length [?r1]) (request_of ''openai'' ?cfg ''names'' (?chunks ! Suc 0))
              = Inr (chat_reply (PStr ?bad))"
    by (simp add: sentinel_net_def)
  note second = sentinel_filtering [where net = sentinel_net and chunks = ?chunks and j = "Suc 0"
      and provider = "''openai''" and api_key = "''key''" and cfg = ?cfg and d = "''names''"
      and out = "[PStr ?good]" and log = "[?r1]" and resp = "chat_reply (PStr ?bad)"
      and data = "?env (PStr ?bad)" and t = ?bad and exc_str = ?exc,
      OF cfg j1 b1' first n1 st js tx]
  have tk2: "take (Suc (Suc 0)) ?chunks = ?chunks" and dr2: "drop (Suc (Suc 0)) ?chunks = []"
    by simp_all
  have "chunk_loop ?exc sentinel_net ''openai'' ?cfg ''names'' 0 (take (Suc (Suc 0)) ?chunks) ([], [])
          = ([PStr ?good] @ (if \<exists>pre post. ?bad = pre @ ''NO_DATA'' @ post then [] else [PStr ?bad]),
             [?r1] @ [request_of ''openai'' ?cfg ''names'' (?chunks ! Suc 0)])"
    by (rule second [THEN conjunct1])
  then have "chunk_loop ?exc sentinel_net ''openai'' ?cfg ''names'' 0 ?chunks ([], [])
          = ([PStr ?good] @ [], [?r1] @ [request_of ''openai'' ?cfg ''names'' ''data2''])"
    by (simp only: dirty if_True tk2 nth)
  then have both: "chunk_loop ?exc sentinel_net ''openai'' ?cfg ''names'' 0 ?chunks ([], [])
          = ([PStr ?good], [?r1, ?r2])"
    by (simp only: append_Nil2 append_Cons append_Nil)
  have rest: "fst (chunk_loop ?exc sentinel_net ''openai'' ?cfg ''names'' (Suc (Suc 0))
                    (drop (Suc (Suc 0)) ?chunks)
                    ([], [?r1] @ [request_of ''openai'' ?cfg ''names'' (?chunks ! Suc 0)]))
                = map PStr []"
    by (simp only: dr2 chunk_loop.simps fst_conv list.map)
  have outs: "[PStr ?good] = map PStr [?good]" by (simp only: list.map)
  have "fst (parse_with_llm ?exc sentinel_net ''openai'' ''key'' ?chunks ''names'') =
          Inr (if \<exists>pre post. ?bad = pre @ ''NO_DATA'' @ post
               then (if [?good] @ [] = []
                     then ''No matching data found in the content.''
                     else join [NL] ([?good] @ []))
               else join [NL] ([?good] @ ?bad # []))"
    by (rule second [THEN conjunct2, THEN conjunct2, THEN conjunct2, rule_format,
          of "[?good]" "[]", OF conjI [OF outs rest]])
  then have "fst (parse_with_llm ?exc sentinel_net ''openai'' ''key'' ?chunks ''names'') =
          Inr (if [?good] @ [] = []
               then ''No matching data found in the content.''
               else join [NL] ([?good] @ []))"
    by (simp only: dirty if_True)
  then have merged: "fst (parse_with_llm ?exc sentinel_net ''openai'' ''key'' ?chunks ''names'')
                       = Inr ?good"
    by simp
  show ?thesis by (intro conjI) (fact cfg' b1 b2 one both merged)+
qed

lemma join_empty_iff: "join [c] ss = [] \<longleftrightarrow> ss = [] \<or> ss = [[]]"
  by (induction "[c]" ss rule: join.induct) auto

text \<open>
  C5, as the code has it. The final result of \<open>parse_with_llm\<close> is built from the retained
  items, which are the contributions of the chunks in the order of the chunks: the fixed
  string \<open>No matching data found in the content.\<close> if nothing was retained, and otherwise,
  the retained items being strings, these strings joined by newlines. The guard looks at
  the list, not at the text: the result is the empty string exactly when the one retained
  string is empty.
\<close>

theorem parse_with_llm_result:
  assumes "dom_chunks \<noteq> []" and "\<not> list_all blank dom_chunks"
    and "configure provider api_key = Some cfg"
    and "retained exc_str net provider cfg d dom_chunks = map PStr ss"
  shows "fst (parse_with_llm exc_str net provider api_key dom_chunks d) =
           Inr (if ss = [] then ''No matching data found in the content.'' else join [NL] ss)
         \<and> (fst (parse_with_llm exc_str net provider api_key dom_chunks d) = Inr [] \<longleftrightarrow> ss = [[]])"
proof -
  from assms(1-3)
  have "fst (parse_with_llm exc_str net provider api_key dom_chunks d)
          = final_result (retained exc_str net provider cfg d dom_chunks)"
    by (simp add: parse_with_llm_def split_beta chunk_loop_retained)
  with assms(4)
  have r: "fst (parse_with_llm exc_str net provider api_key dom_chunks d) =
           Inr (if ss = [] then ''No matching data found in the content.'' else join [NL] ss)"
    by (simp add: final_result_def py_join_def strings_of_map_PStr no_match_msg_def)
  then have "fst (parse_with_llm exc_str net provider api_key dom_chunks d) = Inr [] \<longleftrightarrow> ss = [[]]"
    by (auto simp: join_empty_iff)
  with r show ?thesis by simp
qed

text \<open>
  The claim as it is written ends with: the caller never receives empty output. A reply
  with status 200 and an empty text is retained, and the joined result is empty.
\<close>

theorem empty_output_counterexample:
  "fst (parse_with_llm (\<lambda>e. ''boom'') empty_text_net ''openai'' ''key'' [''data''] ''names'')
     = Inr ''''"
  by (simp add: run_simps empty_text_net_def)

theorem parse_with_llm_result_witness:
  "[''d1'', '' '', ''d2'', ''d3''] \<noteq> [] \<and> \<not> list_all blank [''d1'', '' '', ''d2'', ''d3'']
   \<and> configure ''groq'' ''key'' \<noteq> None
   \<and> retained (\<lambda>e. ''boom'') flaky_net ''groq'' (the (configure ''groq'' ''key'')) ''names''
        [''d1'', '' '', ''d2'', ''d3'']
       = map PStr [''A: 1'', ''Error (Chunk 2): API returned 500 - overloaded'', ''C: 3'']
   \<and> fst (parse_with_llm (\<lambda>e. ''boom'') flaky_net ''groq'' ''key'' [''d1'', '' '', ''d2'', ''d3''] ''names'')
       = Inr (''A: 1'' @ [NL] @ ''Error (Chunk 2): API returned 500 - overloaded'' @ [NL] @ ''C: 3'')"
proof -
  let ?chunks = "[''d1'', '' '', ''d2'', ''d3'']"
  let ?cfg = "the (configure ''groq'' ''key'')"
  have a: "?chunks \<noteq> []" by simp
  have b: "\<not> list_all blank ?chunks" by (simp add: run_simps)
  have c: "configure ''groq'' ''key'' = Some ?cfg" by (simp add: configure_def)
  have up: "[0..<length ?chunks] = [0, 1, 2, 3]" by (simp add: upt_rec)
  have cb: "calls_before ?chunks 0 = 0" "calls_before ?chunks 1 = 1"
    "calls_before ?chunks 2 = 1" "calls_before ?chunks 3 = 2"
    by (simp_all add: calls_before_def run_simps numeral_2_eq_2 numeral_3_eq_3)
  have r: "retained (\<lambda>e. ''boom'') flaky_net ''groq'' ?cfg ''names'' ?chunks
         = map PStr [''A: 1'', ''Error (Chunk 2): API returned 500 - overloaded'', ''C: 3'']"
    unfolding retained_def up
    by (simp add: cb) (simp add: run_simps flaky_net_def str_nat.simps)
  from parse_with_llm_result [OF a b c r]
  have res: "fst (parse_with_llm (\<lambda>e. ''boom'') flaky_net ''groq'' ''key'' ?chunks ''names'')
       = Inr (''A: 1'' @ [NL] @ ''Error (Chunk 2): API returned 500 - overloaded'' @ [NL] @ ''C: 3'')"
    by simp
  have c': "configure ''groq'' ''key'' \<noteq> None" by (simp add: configure_def)
  show ?thesis by (intro conjI) (fact a b c' r res)+
qed

section \<open>The tabular reconstructor\<close>

lemmas line_simps = nonblank_lines_def splitlines_def strip_def is_space_def whitespace_def
  is_linebreak_def linebreaks_def NL_def CR_def

lemma mixed_lines:
  "nonblank_lines mixed_text =
     [[CHR ''a'', CHR 0x09, CHR ''b'', CHR '','', CHR ''c''],
      [CHR ''1'', CHR 0x09, CHR ''2'', CHR '','', CHR ''3''],
      [CHR ''4'', CHR 0x09, CHR ''5'', CHR 0x09, CHR ''6'', CHR '','', CHR ''7'']]"
  by (simp add: mixed_text_def line_simps)

lemma mixed_joined:
  "join [NL] [[CHR ''a'', CHR 0x09, CHR ''b'', CHR '','', CHR ''c''],
      [CHR ''1'', CHR 0x09, CHR ''2'', CHR '','', CHR ''3''],
      [CHR ''4'', CHR 0x09, CHR ''5'', CHR 0x09, CHR ''6'', CHR '','', CHR ''7'']] = mixed_text"
  by (simp add: mixed_text_def)

lemma mixed_tab: "strict_csv mixed_text (CHR 0x09) = Inl ValueError"
  by (simp add: strict_csv_def mixed_text_def line_simps)

lemma mixed_comma:
  "strict_csv mixed_text (CHR '','') =
     Inr [[[CHR ''a'', CHR 0x09, CHR ''b''], ''c''], [[CHR ''1'', CHR 0x09, CHR ''2''], ''3''],
          [[CHR ''4'', CHR 0x09, CHR ''5'', CHR 0x09, CHR ''6''], ''7'']]"
  by (simp add: strict_csv_def mixed_text_def line_simps)

text \<open>
  C2, as it is written: only the first separator found in the first line is attempted,
  and when its parse raises, control goes to the whitespace strategy. In the code the
  \<open>except\<close> clause is inside the loop, which goes on to the next separator: here the first
  line holds a tab and a comma, the parse with the tab raises, and the result is the parse
  with the comma, not the single text column that strategies 3 and 4 give for these lines.
\<close>

theorem first_delimiter_only_counterexample:
  "strict_csv (join [NL] (nonblank_lines mixed_text)) (CHR 0x09) = Inl ValueError
   \<and> try_separators strict_csv (hd (nonblank_lines mixed_text))
         (join [NL] (nonblank_lines mixed_text)) [CHR 0x09, CHR ''|'', CHR '','', CHR '';'']
       = (Some [[[CHR ''a'', CHR 0x09, CHR ''b''], ''c''], [[CHR ''1'', CHR 0x09, CHR ''2''], ''3''],
                [[CHR ''4'', CHR 0x09, CHR ''5'', CHR 0x09, CHR ''6''], ''7'']],
          [CHR 0x09, CHR '',''])
   \<and> try_to_dataframe no_tables strict_csv mixed_text
       = Parsed [[[CHR ''a'', CHR 0x09, CHR ''b''], ''c''], [[CHR ''1'', CHR 0x09, CHR ''2''], ''3''],
                 [[CHR ''4'', CHR 0x09, CHR ''5'', CHR 0x09, CHR ''6''], ''7'']]
   \<and> try_to_dataframe no_tables strict_csv mixed_text \<noteq> whitespace_columns (nonblank_lines mixed_text)"
proof -
  have sep: "try_separators strict_csv [CHR ''a'', CHR 0x09, CHR ''b'', CHR '','', CHR ''c'']
         mixed_text [CHR 0x09, CHR ''|'', CHR '','', CHR '';'']
       = (Some [[[CHR ''a'', CHR 0x09, CHR ''b''], ''c''], [[CHR ''1'', CHR 0x09, CHR ''2''], ''3''],
                [[CHR ''4'', CHR 0x09, CHR ''5'', CHR 0x09, CHR ''6''], ''7'']],
          [CHR 0x09, CHR '',''])"
    by (simp add: mixed_tab mixed_comma)
  have run: "try_to_dataframe no_tables strict_csv mixed_text
       = Parsed [[[CHR ''a'', CHR 0x09, CHR ''b''], ''c''], [[CHR ''1'', CHR 0x09, CHR ''2''], ''3''],
                 [[CHR ''4'', CHR 0x09, CHR ''5'', CHR 0x09, CHR ''6''], ''7'']]"
    by (simp add: try_to_dataframe_def first_html_table_def no_tables_def mixed_lines separators_def
          sep [unfolded mixed_text_def] del: try_separators.simps)
  have c1: "strict_csv (join [NL] (nonblank_lines mixed_text)) (CHR 0x09) = Inl ValueError"
    by (simp only: mixed_lines mixed_joined mixed_tab)
  have c2: "try_separators strict_csv (hd (nonblank_lines mixed_text))
         (join [NL] (nonblank_lines mixed_text)) [CHR 0x09, CHR ''|'', CHR '','', CHR '';'']
       = (Some [[[CHR ''a'', CHR 0x09, CHR ''b''], ''c''], [[CHR ''1'', CHR 0x09, CHR ''2''], ''3''],
                [[CHR ''4'', CHR 0x09, CHR ''5'', CHR 0x09, CHR ''6''], ''7'']],
          [CHR 0x09, CHR '',''])"
    by (simp only: mixed_lines mixed_joined list.sel sep)
  have c4: "try_to_dataframe no_tables strict_csv mixed_text
              \<noteq> whitespace_columns (nonblank_lines mixed_text)"
    by (simp add: run whitespace_columns_def Let_def)
  show ?thesis by (intro conjI) (fact c1 c2 run c4)+
qed


lemma try_separators_spec:
  "try_separators rc header joined seps = (r, tried) \<Longrightarrow>
     (\<exists>later. filter (\<lambda>s. s \<in> set header) seps = tried @ later)
   \<and> (\<forall>s \<in> set (butlast tried). \<exists>e. rc joined s = Inl e)
   \<and> (r = None \<longrightarrow> tried = filter (\<lambda>s. s \<in> set header) seps
                    \<and> (\<forall>s \<in> set tried. \<exists>e. rc joined s = Inl e))
   \<and> (\<forall>df. r = Some df \<longrightarrow> tried \<noteq> [] \<and> rc joined (last tried) = Inr df)"
proof (induction seps arbitrary: r tried)
  case Nil
  then show ?case by simp
next
  case (Cons sep seps)
  show ?case
  proof (cases "sep \<in> set header")
    case False
    with Cons.prems have "try_separators rc header joined seps = (r, tried)" by simp
    from Cons.IH [OF this] False show ?thesis by simp
  next
    case True
    show ?thesis
    proof (cases "rc joined sep")
      case (Inr df)
      with True Cons.prems have "r = Some df" "tried = [sep]" by simp_all
      with True Inr show ?thesis by simp
    next
      case (Inl e)
      obtain r' tried' where rec: "try_separators rc header joined seps = (r', tried')"
        by (cases "try_separators rc header joined seps")
      with True Inl Cons.prems have eq: "r = r'" "tried = sep # tried'" by simp_all
      from Cons.IH [OF rec] have
        pre: "\<exists>later. filter (\<lambda>s. s \<in> set header) seps = tried' @ later" and
        bl: "\<forall>s \<in> set (butlast tried'). \<exists>e. rc joined s = Inl e" and
        none: "r' = None \<longrightarrow> tried' = filter (\<lambda>s. s \<in> set header) seps
                 \<and> (\<forall>s \<in> set tried'. \<exists>e. rc joined s = Inl e)" and
        some: "\<forall>df. r' = Some df \<longrightarrow> tried' \<noteq> [] \<and> rc joined (last tried') = Inr df"
        by blast+
      from pre True have 1: "\<exists>later. filter (\<lambda>s. s \<in> set header) (sep # seps) = tried @ later"
        by (simp add: eq)
      from bl Inl have 2: "\<forall>s \<in> set (butlast tried). \<exists>e. rc joined s = Inl e"
        by (auto simp: eq)
      from none True Inl have 3: "r = None \<longrightarrow> tried = filter (\<lambda>s. s \<in> set header) (sep # seps)
                    \<and> (\<forall>s \<in> set tried. \<exists>e. rc joined s = Inl e)"
        by (auto simp: eq)
      from some have 4: "\<forall>df. r = Some df \<longrightarrow> tried \<noteq> [] \<and> rc joined (last tried) = Inr df"
        by (auto simp: eq)
      from 1 2 3 4 show ?thesis by blast
    qed
  qed
qed

text \<open>
  C2, as the code has it. When strategy 1 finds no table and the text has a non-empty
  line, only the first such line decides which separators are candidates: those of tab,
  pipe, comma and semicolon, in this order, that occur in it. The whole line-set, joined
  by newlines, is parsed with the candidates in turn; the first parse that does not raise
  is the result. A parse that raises is followed by the next candidate, and control
  reaches the whitespace-column strategy only when every candidate has raised (or the
  first line holds no candidate).
\<close>

theorem delimiter_strategy:
  assumes "first_html_table read_html parsed_text = None"
    and "nonblank_lines parsed_text = header # rest"
    and "try_separators read_csv header (join [NL] (header # rest))
           [CHR 0x09, CHR ''|'', CHR '','', CHR '';''] = (r, tried)"
  shows "(\<exists>later. filter (\<lambda>s. s \<in> set header) [CHR 0x09, CHR ''|'', CHR '','', CHR '';'']
                   = tried @ later)
       \<and> (\<forall>s \<in> set (butlast tried). \<exists>e. read_csv (join [NL] (header # rest)) s = Inl e)
       \<and> (r = None \<longrightarrow>
             tried = filter (\<lambda>s. s \<in> set header) [CHR 0x09, CHR ''|'', CHR '','', CHR '';'']
           \<and> (\<forall>s \<in> set tried. \<exists>e. read_csv (join [NL] (header # rest)) s = Inl e)
           \<and> try_to_dataframe read_html read_csv parsed_text = whitespace_columns (header # rest))
       \<and> (\<forall>df. r = Some df \<longrightarrow>
             tried \<noteq> [] \<and> read_csv (join [NL] (header # rest)) (last tried) = Inr df
           \<and> try_to_dataframe read_html read_csv parsed_text = Parsed df)"
proof -
  from assms have run: "try_to_dataframe read_html read_csv parsed_text =
      (case r of Some df \<Rightarrow> Parsed df | None \<Rightarrow> whitespace_columns (header # rest))"
    by (simp add: try_to_dataframe_def separators_def del: try_separators.simps)
  from try_separators_spec [OF assms(3)] run show ?thesis
    by (simp del: try_separators.simps) 
qed

theorem delimiter_strategy_witness:
  "first_html_table no_tables mixed_text = None
   \<and> nonblank_lines mixed_text =
       [CHR ''a'', CHR 0x09, CHR ''b'', CHR '','', CHR ''c''] #
       [[CHR ''1'', CHR 0x09, CHR ''2'', CHR '','', CHR ''3''],
        [CHR ''4'', CHR 0x09, CHR ''5'', CHR 0x09, CHR ''6'', CHR '','', CHR ''7'']]
   \<and> try_separators strict_csv [CHR ''a'', CHR 0x09, CHR ''b'', CHR '','', CHR ''c''] mixed_text
         [CHR 0x09, CHR ''|'', CHR '','', CHR '';'']
       = (Some [[[CHR ''a'', CHR 0x09, CHR ''b''], ''c''], [[CHR ''1'', CHR 0x09, CHR ''2''], ''3''],
                [[CHR ''4'', CHR 0x09, CHR ''5'', CHR 0x09, CHR ''6''], ''7'']],
          [CHR 0x09, CHR '',''])
   \<and> try_to_dataframe no_tables strict_csv mixed_text
       = Parsed [[[CHR ''a'', CHR 0x09, CHR ''b''], ''c''], [[CHR ''1'', CHR 0x09, CHR ''2''], ''3''],
                 [[CHR ''4'', CHR 0x09, CHR ''5'', CHR 0x09, CHR ''6''], ''7'']]"
proof -
  let ?frame = "[[[CHR ''a'', CHR 0x09, CHR ''b''], ''c''], [[CHR ''1'', CHR 0x09, CHR ''2''], ''3''],
                [[CHR ''4'', CHR 0x09, CHR ''5'', CHR 0x09, CHR ''6''], ''7'']]"
  have a: "first_html_table no_tables mixed_text = None"
    by (simp add: first_html_table_def no_tables_def)
  have c: "try_separators strict_csv [CHR ''a'', CHR 0x09, CHR ''b'', CHR '','', CHR ''c'']
         (join [NL] ([CHR ''a'', CHR 0x09, CHR ''b'', CHR '','', CHR ''c''] #
            [[CHR ''1'', CHR 0x09, CHR ''2'', CHR '','', CHR ''3''],
             [CHR ''4'', CHR 0x09, CHR ''5'', CHR 0x09, CHR ''6'', CHR '','', CHR ''7'']]))
         [CHR 0x09, CHR ''|'', CHR '','', CHR '';''] = (Some ?frame, [CHR 0x09, CHR '','']) "
    by (simp only: mixed_joined) (simp add: mixed_tab mixed_comma)
  from delimiter_strategy [OF a mixed_lines c]
  have d: "try_to_dataframe no_tables strict_csv mixed_text = Parsed ?frame" by blast
  from c have c': "try_separators strict_csv [CHR ''a'', CHR 0x09, CHR ''b'', CHR '','', CHR ''c''] mixed_text
         [CHR 0x09, CHR ''|'', CHR '','', CHR '';''] = (Some ?frame, [CHR 0x09, CHR '',''])"
    by (simp only: mixed_joined)
  show ?thesis by (intro conjI) (fact a mixed_lines c' d)+
qed

section \<open>The reconstructor never fails\<close>

lemma splitlines_from_chars:
  "l \<in> set (splitlines_from cur s) \<Longrightarrow> set l \<subseteq> set cur \<union> set s"
  by (induction cur s rule: splitlines_from.induct) (auto split: if_splits)

lemma strip_all_space:
  assumes "\<forall>c \<in> set l. is_space c"
  shows "strip l = []"
proof -
  from assms have d: "dropWhile is_space l = []" by (simp add: dropWhile_eq_Nil_conv)
  show ?thesis unfolding strip_def d by simp
qed

lemma nonblank_lines_whitespace:
  assumes "\<forall>c \<in> set s. is_space c"
  shows "nonblank_lines s = []"
proof -
  have "strip l = []" if "l \<in> set (splitlines s)" for l
  proof -
    from that have "set l \<subseteq> set s"
      using splitlines_from_chars [of l "[]" s] by (simp add: splitlines_def)
    with assms show ?thesis by (intro strip_all_space) auto
  qed
  then show ?thesis by (simp add: nonblank_lines_def)
qed

lemma remdups_single:
  assumes "length (remdups xs) = 1" and "a \<in> set xs" and "b \<in> set xs"
  shows "a = b"
proof -
  from assms(1) have "card (set xs) = 1" by (simp add: card_set)
  then obtain x where "set xs = {x}" by (metis card_1_singletonE)
  with assms(2,3) show ?thesis by simp
qed

lemma well_formed_whitespace_columns: "well_formed (whitespace_columns lines)"
proof -
  define parts where "parts = map split_ws lines"
  define consistent where
    "consistent \<longleftrightarrow> 2 \<le> length parts \<and> length (remdups (map length parts)) = 1 \<and> 1 < hd (map length parts)"
  have eq: "whitespace_columns lines =
      (if consistent then DataFrame (hd parts) (tl parts)
       else DataFrame [''text''] (map (\<lambda>l. [l]) lines))"
    by (simp add: whitespace_columns_def Let_def parts_def consistent_def)
  show ?thesis
  proof (cases consistent)
    case True
    then have ne: "parts \<noteq> []" and one: "length (remdups (map length parts)) = 1"
      by (auto simp: consistent_def)
    have "length row = length (hd parts)" if "row \<in> set (tl parts)" for row
    proof -
      from that ne have "length row \<in> set (map length parts)"
        by (auto dest: list.set_sel(2))
      moreover from ne have "length (hd parts) \<in> set (map length parts)" by simp
      ultimately show ?thesis using one by (blast intro: remdups_single)
    qed
    with True show ?thesis by (simp add: eq list_all_iff)
  next
    case False
    then show ?thesis by (simp add: eq list_all_iff)
  qed
qed

text \<open>
  C6. For every input string and whatever the two library parsers do with it, raising
  included, \<open>try_to_dataframe\<close> returns a table, and the table is well formed. An exception
  raised by \<open>read_html\<close> leads to the same result as an empty list of tables; when every
  \<open>read_csv\<close> attempt raises, the result is that of the whitespace-column strategy, which
  ends in the single-column fallback: a column \<open>text\<close> with one row for each non-empty
  trimmed line. An empty or whitespace-only input in which \<open>read_html\<close> finds no table
  yields the empty table, with no rows.
\<close>

theorem try_to_dataframe_never_fails:
  "well_formed (try_to_dataframe read_html read_csv parsed_text)
   \<and> ((\<exists>e. read_html parsed_text = Inl e) \<longrightarrow>
        try_to_dataframe read_html read_csv parsed_text
          = try_to_dataframe (\<lambda>s. Inr []) read_csv parsed_text)
   \<and> (first_html_table read_html parsed_text = None \<and> nonblank_lines parsed_text \<noteq> []
        \<and> (\<forall>sep. \<exists>e. read_csv (join [NL] (nonblank_lines parsed_text)) sep = Inl e) \<longrightarrow>
        try_to_dataframe read_html read_csv parsed_text
          = whitespace_columns (nonblank_lines parsed_text))
   \<and> ((whitespace_columns (nonblank_lines parsed_text) :: 'df table)
          = DataFrame (hd (map split_ws (nonblank_lines parsed_text)))
                      (tl (map split_ws (nonblank_lines parsed_text)))
        \<or> (whitespace_columns (nonblank_lines parsed_text) :: 'df table)
          = DataFrame [''text''] (map (\<lambda>l. [l]) (nonblank_lines parsed_text)))
   \<and> (first_html_table read_html parsed_text = None \<and> (\<forall>c \<in> set parsed_text. is_space c) \<longrightarrow>
        try_to_dataframe read_html read_csv parsed_text = DataFrame [] [])"
proof (intro conjI impI)
  show "well_formed (try_to_dataframe read_html read_csv parsed_text)"
    by (simp add: try_to_dataframe_def well_formed_whitespace_columns Let_def
          split: option.splits list.splits del: try_separators.simps)
next
  assume "\<exists>e. read_html parsed_text = Inl e"
  then show "try_to_dataframe read_html read_csv parsed_text
          = try_to_dataframe (\<lambda>s. Inr []) read_csv parsed_text"
    by (auto simp: try_to_dataframe_def first_html_table_def)
next
  assume a: "first_html_table read_html parsed_text = None \<and> nonblank_lines parsed_text \<noteq> []
        \<and> (\<forall>sep. \<exists>e. read_csv (join [NL] (nonblank_lines parsed_text)) sep = Inl e)"
  then obtain header rest where l: "nonblank_lines parsed_text = header # rest"
    by (cases "nonblank_lines parsed_text") auto
  obtain r tried where t: "try_separators read_csv header (join [NL] (header # rest)) separators = (r, tried)"
    by (cases "try_separators read_csv header (join [NL] (header # rest)) separators")
  have "r = None"
  proof (cases r)
    case (Some df)
    with try_separators_spec [OF t] have "read_csv (join [NL] (header # rest)) (last tried) = Inr df"
      by blast
    with a l show ?thesis by (metis Inl_Inr_False)
  qed
  with a l t show "try_to_dataframe read_html read_csv parsed_text
          = whitespace_columns (nonblank_lines parsed_text)"
    by (simp add: try_to_dataframe_def del: try_separators.simps)
next
  show "(whitespace_columns (nonblank_lines parsed_text) :: 'df table)
          = DataFrame (hd (map split_ws (nonblank_lines parsed_text)))
                      (tl (map split_ws (nonblank_lines parsed_text)))
        \<or> (whitespace_columns (nonblank_lines parsed_text) :: 'df table)
          = DataFrame [''text''] (map (\<lambda>l. [l]) (nonblank_lines parsed_text))"
    by (simp add: whitespace_columns_def Let_def)
next
  assume "first_html_table read_html parsed_text = None \<and> (\<forall>c \<in> set parsed_text. is_space c)"
  then show "try_to_dataframe read_html read_csv parsed_text = DataFrame [] []"
    by (simp add: try_to_dataframe_def nonblank_lines_whitespace)
qed


theorem try_to_dataframe_never_fails_witness:
  "first_html_table no_tables ''  '' = None \<and> list_all is_space ''  ''
   \<and> try_to_dataframe no_tables strict_csv ''  '' = DataFrame [] []
   \<and> well_formed (try_to_dataframe no_tables strict_csv (''just one line'' @ [NL] @ ''another line''))
   \<and> try_to_dataframe no_tables strict_csv (''just one line'' @ [NL] @ ''another line'')
       = DataFrame [''text''] [[''just one line''], [''another line'']]"
proof -
  have a: "first_html_table no_tables ''  '' = None"
    by (simp add: first_html_table_def no_tables_def)
  have b: "list_all is_space ''  ''" by (simp add: is_space_def whitespace_def)
  then have b': "\<forall>c \<in> set ''  ''. is_space c" by (simp only: list_all_iff)
  from try_to_dataframe_never_fails [of no_tables strict_csv "''  ''"] a b'
  have c: "try_to_dataframe no_tables strict_csv ''  '' = DataFrame [] []" by blast
  from try_to_dataframe_never_fails [of no_tables strict_csv "''just one line'' @ [NL] @ ''another line''"]
  have d: "well_formed (try_to_dataframe no_tables strict_csv (''just one line'' @ [NL] @ ''another line''))"
    by blast
  have lines: "nonblank_lines (''just one line'' @ [NL] @ ''another line'')
                 = [''just one line'', ''another line'']"
    by (simp add: nonblank_lines_def splitlines_def strip_def is_space_def whitespace_def
          is_linebreak_def linebreaks_def NL_def CR_def)
  have e: "try_to_dataframe no_tables strict_csv (''just one line'' @ [NL] @ ''another line'')
       = DataFrame [''text''] [[''just one line''], [''another line'']]"
    unfolding try_to_dataframe_def lines
    by (simp add: first_html_table_def no_tables_def separators_def whitespace_columns_def
          split_ws_def is_space_def whitespace_def)
  show ?thesis by (intro conjI) (fact a b c d e)+
qed

section \<open>The normalizer\<close>

lemma splitlines_from_no_break:
  "l \<in> set (splitlines_from cur s) \<Longrightarrow> \<forall>c \<in> set cur. \<not> is_linebreak c
     \<Longrightarrow> \<forall>c \<in> set l. \<not> is_linebreak c"
proof (induction cur s arbitrary: l rule: splitlines_from.induct)
  case (1 cur)
  then show ?case by (cases "cur = []") simp_all
next
  case (2 cur c)
  then show ?case by (cases "is_linebreak c") simp_all
next
  case (3 cur c d cs)
  note ih1 = 3(1) and ih2 = 3(2) and ih3 = 3(3) and mem = 3(4) and cur = 3(5)
  show ?case
  proof (cases "c = CR \<and> d = NL")
    case True
    with mem have "l = cur \<or> l \<in> set (splitlines_from [] cs)" by simp
    then show ?thesis
    proof
      assume "l = cur" with cur show ?thesis by simp
    next
      assume "l \<in> set (splitlines_from [] cs)"
      from ih1 [OF True this] show ?thesis by simp
    qed
  next
    case nc: False
    show ?thesis
    proof (cases "is_linebreak c")
      case True
      from mem have "l \<in> set (cur # splitlines_from [] (d # cs))"
        by (simp only: splitlines_from.simps nc True if_False if_True)
      then have "l = cur \<or> l \<in> set (splitlines_from [] (d # cs))" by simp
      then show ?thesis
      proof
        assume "l = cur" with cur show ?thesis by simp
      next
        assume "l \<in> set (splitlines_from [] (d # cs))"
        from ih2 [OF nc True this] show ?thesis by simp
      qed
    next
      case False
      from mem have m: "l \<in> set (splitlines_from (cur @ [c]) (d # cs))"
        by (simp only: splitlines_from.simps nc False if_False)
      from cur False have "\<forall>x \<in> set (cur @ [c]). \<not> is_linebreak x" by simp
      from ih3 [OF nc False m this] show ?thesis .
    qed
  qed
qed

lemma is_linebreak_CR: "is_linebreak CR"
  by (simp add: is_linebreak_def linebreaks_def CR_def)

lemma is_linebreak_NL: "is_linebreak NL" and NL_not_CR: "NL \<noteq> CR"
  by (simp_all add: is_linebreak_def linebreaks_def NL_def CR_def)

lemma splitlines_from_plain:
  "\<forall>c \<in> set l. \<not> is_linebreak c \<Longrightarrow> splitlines_from cur (l @ rest) = splitlines_from (cur @ l) rest"
proof (induction l arbitrary: cur)
  case Nil
  then show ?case by simp
next
  case (Cons c l)
  then have c: "\<not> is_linebreak c" and cr: "c \<noteq> CR" using is_linebreak_CR by auto
  from Cons have ih: "splitlines_from (cur @ [c]) (l @ rest) = splitlines_from ((cur @ [c]) @ l) rest"
    by simp
  show ?case
  proof (cases "l @ rest")
    case Nil
    with c show ?thesis by simp
  next
    case (Cons d ds)
    with c cr have "splitlines_from cur (c # l @ rest) = splitlines_from (cur @ [c]) (l @ rest)"
      by simp
    with ih show ?thesis by simp
  qed
qed

lemma splitlines_from_NL: "splitlines_from cur (NL # rest) = cur # splitlines_from [] rest"
  using is_linebreak_NL NL_not_CR by (cases rest) simp_all

lemma splitlines_join:
  "\<forall>l \<in> set ls. l \<noteq> [] \<and> (\<forall>c \<in> set l. \<not> is_linebreak c) \<Longrightarrow> splitlines (join [NL] ls) = ls"
proof (induction "[NL]" ls rule: join.induct)
  case 1
  then show ?case by (simp add: splitlines_def)
next
  case (2 x)
  then have "splitlines_from [] (x @ []) = splitlines_from ([] @ x) []"
    by (intro splitlines_from_plain) simp
  with 2 show ?case by (simp add: splitlines_def)
next
  case (3 x y ys)
  then have "splitlines_from [] (x @ NL # join [NL] (y # ys))
               = splitlines_from ([] @ x) (NL # join [NL] (y # ys))"
    by (intro splitlines_from_plain) simp
  also have "\<dots> = x # splitlines_from [] (join [NL] (y # ys))"
    by (simp add: splitlines_from_NL)
  also from 3 have "splitlines_from [] (join [NL] (y # ys)) = y # ys"
    by (simp add: splitlines_def)
  finally show ?case by (simp add: splitlines_def)
qed

lemma strip_subset: "set (strip l) \<subseteq> set l"
proof -
  have "set (strip l) \<subseteq> set (dropWhile is_space l)"
    unfolding strip_def by (metis set_rev set_dropWhileD subsetI)
  also have "\<dots> \<subseteq> set l" by (auto dest: set_dropWhileD)
  finally show ?thesis .
qed

lemma strip_strip: "strip (strip l) = strip l"
proof -
  define a where "a = dropWhile is_space l"
  define b where "b = dropWhile is_space (rev a)"
  have s: "strip l = rev b" by (simp add: strip_def a_def b_def)
  have left_fixed: "dropWhile is_space (rev b) = rev b"
  proof (cases "b = []")
    case True
    then show ?thesis by simp
  next
    case False
    have "rev a = takeWhile is_space (rev a) @ b" by (simp add: b_def)
    with False have "last (rev a) = last b" by (metis last_appendR)
    moreover from False have "a \<noteq> []" by (auto simp: b_def)
    ultimately have "last b = hd a" by (simp add: last_rev)
    moreover from \<open>a \<noteq> []\<close> have "\<not> is_space (hd a)"
      unfolding a_def by (rule hd_dropWhile)
    ultimately have "\<not> is_space (hd (rev b))" using False by (simp add: hd_rev)
    with False show ?thesis by (cases "rev b") simp_all
  qed
  have right_fixed: "dropWhile is_space b = b" by (simp add: b_def)
  have "strip (rev b) = rev (dropWhile is_space (rev (dropWhile is_space (rev b))))"
    by (simp only: strip_def)
  also have "\<dots> = rev b" by (simp only: left_fixed rev_rev_ident right_fixed)
  finally show ?thesis by (simp only: s)
qed

lemma nonblank_lines_element:
  assumes "l \<in> set (nonblank_lines t)"
  shows "l \<noteq> [] \<and> strip l = l \<and> (\<forall>c \<in> set l. \<not> is_linebreak c)"
proof -
  from assms obtain l0 where l0: "l0 \<in> set (splitlines t)" and l: "l = strip l0" and ne: "strip l0 \<noteq> []"
    by (auto simp: nonblank_lines_def)
  from l0 have "\<forall>c \<in> set l0. \<not> is_linebreak c"
    using splitlines_from_no_break [of l0 "[]" t] by (simp add: splitlines_def)
  with strip_subset [of l0] have "\<forall>c \<in> set l. \<not> is_linebreak c" by (auto simp: l)
  with l ne show ?thesis by (simp add: strip_strip)
qed

lemma nonblank_lines_fixed:
  assumes "\<forall>l \<in> set ls. l \<noteq> [] \<and> strip l = l \<and> (\<forall>c \<in> set l. \<not> is_linebreak c)"
  shows "nonblank_lines (join [NL] ls) = ls"
proof -
  from assms have "splitlines (join [NL] ls) = ls" by (intro splitlines_join) blast
  moreover from assms have "[strip l. l \<leftarrow> ls, strip l \<noteq> []] = ls"
    by (induction ls) simp_all
  ultimately show ?thesis by (simp add: nonblank_lines_def)
qed

lemma nonblank_lines_idem: "nonblank_lines (join [NL] (nonblank_lines t)) = nonblank_lines t"
  by (rule nonblank_lines_fixed) (blast dest: nonblank_lines_element)

text \<open>
  C8, as it is written: \<open>clean(clean(x)) = clean(x)\<close> for every input. The second pass
  parses the output of the first as markup again. A parser that resolves character
  references, as \<open>html.parser\<close> does, turns \<open>&amp;amp;\<close> into \<open>&amp;\<close> in the first
  pass and \<open>&amp;\<close> into \<open>&\<close> in the second.
\<close>

theorem clean_twice_counterexample:
  "clean_body_content decode_amp ''&amp;amp;'' = ''&amp;''
   \<and> clean_body_content decode_amp (clean_body_content decode_amp ''&amp;amp;'') = ''&''"
proof -
  have 1: "decode_amp ''&amp;amp;'' = ''&amp;''" and 2: "decode_amp ''&amp;'' = ''&''"
    by (simp_all add: decode_amp_def numeral_eq_Suc)
  have l1: "nonblank_lines ''&amp;'' = [''&amp;'']" and l2: "nonblank_lines ''&'' = [''&'']"
    by (simp_all add: nonblank_lines_def splitlines_def strip_def is_space_def whitespace_def
          is_linebreak_def linebreaks_def NL_def CR_def)
  have a: "clean_body_content decode_amp ''&amp;amp;'' = ''&amp;''"
    by (simp only: clean_body_content_def Let_def 1 l1 join.simps)
  have b: "clean_body_content decode_amp ''&amp;'' = ''&''"
    by (simp only: clean_body_content_def Let_def 2 l2 join.simps)
  from a b show ?thesis by (simp only:) 
qed

text \<open>
  C8, as the code has it. The line clean-up is idempotent: whenever the text the parser
  extracts from the cleaned output is that output itself, as it is for a cleaned text
  that holds no markup and no character reference, a second run of
  \<open>clean_body_content\<close> returns the output of the first.
\<close>

theorem clean_body_content_idempotent:
  assumes "soup_text (clean_body_content soup_text x) = clean_body_content soup_text x"
  shows "clean_body_content soup_text (clean_body_content soup_text x)
           = clean_body_content soup_text x"
proof -
  have "clean_body_content soup_text (clean_body_content soup_text x)
          = join [NL] (nonblank_lines (clean_body_content soup_text x))"
    by (simp add: clean_body_content_def assms [unfolded clean_body_content_def Let_def])
  also have "\<dots> = join [NL] (nonblank_lines (join [NL] (nonblank_lines (soup_text x))))"
    by (simp add: clean_body_content_def)
  also have "\<dots> = join [NL] (nonblank_lines (soup_text x))"
    by (simp only: nonblank_lines_idem)
  finally show ?thesis by (simp add: clean_body_content_def)
qed

theorem clean_body_content_idempotent_witness:
  "decode_amp (clean_body_content decode_amp ''  a &amp; b  '') = clean_body_content decode_amp ''  a &amp; b  ''
   \<and> clean_body_content decode_amp ''  a &amp; b  '' = ''a & b''
   \<and> clean_body_content decode_amp (clean_body_content decode_amp ''  a &amp; b  '') = ''a & b''"
proof -
  have d: "decode_amp ''  a &amp; b  '' = ''  a & b  ''"
    by (simp add: decode_amp_def numeral_eq_Suc)
  have l: "nonblank_lines ''  a & b  '' = [''a & b'']"
    by (simp add: nonblank_lines_def splitlines_def strip_def is_space_def whitespace_def
          is_linebreak_def linebreaks_def NL_def CR_def)
  have c: "clean_body_content decode_amp ''  a &amp; b  '' = ''a & b''"
    by (simp only: clean_body_content_def Let_def d l join.simps)
  have h: "decode_amp (clean_body_content decode_amp ''  a &amp; b  '')
             = clean_body_content decode_amp ''  a &amp; b  ''"
    by (simp only: c) (simp add: decode_amp_def)
  from clean_body_content_idempotent [of decode_amp, OF h]
  have e: "clean_body_content decode_amp (clean_body_content decode_amp ''  a &amp; b  '') = ''a & b''"
    by (simp only: c)
  show ?thesis by (intro conjI) (fact h c e)+
qed

end
